theory Spec2Isabelle
  imports Main "HOL-Library.Word" "HOL-Library.AList"
begin

section \<open>JuMan secure storage manager (tools/juman\_secure.py)\<close>

text \<open>
  The module keeps an encrypted vault in one data directory: a wrapped master key
  (\<open>master.key.enc\<close>), its derivation parameters (\<open>config.json\<close>), a recovery token
  (\<open>recovery.txt\<close>) and a \<open>storage\<close> directory of encrypted blobs.

  The embedding follows the Python functions one by one. What the functions do to the
  file system and to the random source is explicit state (\<open>world\<close>); every exception is
  a value of \<open>error\<close>, returned together with the world as the exception leaves it.
  The third-party and standard-library calls the module makes (AES-GCM, PBKDF2, base64,
  JSON, zip) are not part of the module: they are the fields of a \<open>library\<close> record
  that every function takes as its first argument.
\<close>

subsection \<open>Data\<close>

type_synonym bytes = "8 word list"

text \<open>A path is the list of its components; \<open>p / name\<close> is \<open>p @ [name]\<close> for a name that
  is one component (names holding a separator, \<open>.\<close> or \<open>..\<close> are outside the model).\<close>

type_synonym path = "string list"

datatype error =
    FileNotFoundError
  | FileExistsError
  | IsADirectoryError
  | NotADirectoryError
  | ValueError
  | TypeError
  | KeyError
  | OverflowError
  | InvalidTag
  | JSONDecodeError
  | Base64Error
  | OSError

datatype jvalue = JStr string | JInt int | JNull

record library =
  aesgcm_new :: "bytes \<Rightarrow> error option"
    \<comment> \<open>\<open>AESGCM(key)\<close>: the exception the constructor raises, if any\<close>
  aesgcm_encrypt :: "bytes \<Rightarrow> bytes \<Rightarrow> bytes \<Rightarrow> error + bytes"
    \<comment> \<open>\<open>AESGCM(key).encrypt(iv, data, None)\<close>: ciphertext followed by the tag\<close>
  aesgcm_decrypt :: "bytes \<Rightarrow> bytes \<Rightarrow> bytes \<Rightarrow> error + bytes"
    \<comment> \<open>\<open>AESGCM(key).decrypt(iv, ct, None)\<close>\<close>
  pbkdf2_sha256 :: "string \<Rightarrow> bytes \<Rightarrow> int \<Rightarrow> error + bytes"
    \<comment> \<open>\<open>PBKDF2HMAC(SHA256, length=32, salt, iterations).derive(password.encode('utf-8'))\<close>\<close>
  b64encode :: "bytes \<Rightarrow> string"
  b64decode :: "string \<Rightarrow> error + bytes"
  json_dump :: "(string \<times> jvalue) list \<Rightarrow> bytes"
  json_load :: "bytes \<Rightarrow> error + (string \<times> jvalue) list"
    \<comment> \<open>the object a JSON document holds; a document that is no object is an error here\<close>
  zip_deflated :: "(string \<times> bytes) list \<Rightarrow> bytes"
    \<comment> \<open>the bytes of a \<open>ZipFile\<close> written with these members (arcname, contents), in order\<close>

datatype node = File bytes | Dir

text \<open>
  The world: the file system as an association list from paths to nodes, whose order is
  the order in which a directory is enumerated (a new entry comes last); \<open>residue\<close>, the
  contents that unlinked files leave behind on the medium (what an erase before the
  unlink is there to destroy); \<open>entropy\<close>, the bytes the operating system's random
  source will deliver (\<open>secrets.token_bytes\<close>, \<open>os.urandom\<close>); \<open>uuids\<close>, the values
  \<open>str(uuid.uuid4())\<close> will take.
\<close>

record world =
  files :: "(path \<times> node) list"
  residue :: "bytes list"
  entropy :: "nat \<Rightarrow> 8 word"
  uuids :: "nat \<Rightarrow> string"

subsection \<open>Constants of the module\<close>

definition CONFIG_NAME :: string where "CONFIG_NAME = ''config.json''"
definition MASTER_KEY_ENC :: string where "MASTER_KEY_ENC = ''master.key.enc''"
definition RECOVERY :: string where "RECOVERY = ''recovery.txt''"
definition STORAGE_DIRNAME :: string where "STORAGE_DIRNAME = ''storage''"
definition BACKUP_SUFFIX :: string where "BACKUP_SUFFIX = ''.jumanbackup''"
definition PBKDF2_ITER :: int where "PBKDF2_ITER = 200000"
definition SALT_LEN :: nat where "SALT_LEN = 16"
definition AESGCM_IV_LEN :: nat where "AESGCM_IV_LEN = 12"

subsection \<open>Random source\<close>

definition token_bytes :: "nat \<Rightarrow> world \<Rightarrow> bytes \<times> world" where
  "token_bytes n w = (map (entropy w) [0..<n], w\<lparr>entropy := (\<lambda>i. entropy w (i + n))\<rparr>)"

definition uuid4 :: "world \<Rightarrow> string \<times> world" where
  "uuid4 w = (uuids w 0, w\<lparr>uuids := (\<lambda>i. uuids w (Suc i))\<rparr>)"

subsection \<open>Encryption with a key\<close>

definition derive_key :: "library \<Rightarrow> string \<Rightarrow> bytes \<Rightarrow> int \<Rightarrow> error + bytes" where
  "derive_key L password salt iterations = pbkdf2_sha256 L password salt iterations"

definition encrypt_with_key :: "library \<Rightarrow> bytes \<Rightarrow> bytes \<Rightarrow> world \<Rightarrow> (error + bytes) \<times> world" where
  "encrypt_with_key L plaintext key w =
     (case aesgcm_new L key of
        Some e \<Rightarrow> (Inl e, w)
      | None \<Rightarrow>
          (case token_bytes AESGCM_IV_LEN w of (iv, w1) \<Rightarrow>
             (case aesgcm_encrypt L key iv plaintext of
                Inl e \<Rightarrow> (Inl e, w1)
              | Inr ct \<Rightarrow> (Inr (iv @ ct), w1))))"

definition decrypt_with_key :: "library \<Rightarrow> bytes \<Rightarrow> bytes \<Rightarrow> error + bytes" where
  "decrypt_with_key L data key =
     (case aesgcm_new L key of
        Some e \<Rightarrow> Inl e
      | None \<Rightarrow> aesgcm_decrypt L key (take AESGCM_IV_LEN data) (drop AESGCM_IV_LEN data))"

subsection \<open>File system operations (pathlib, os)\<close>

text \<open>The root \<open>[]\<close> is a directory; every other path is what the association list says.\<close>

definition stat :: "world \<Rightarrow> path \<Rightarrow> node option" where
  "stat w p = (if p = [] then Some Dir else map_of (files w) p)"

definition path_exists :: "world \<Rightarrow> path \<Rightarrow> bool" where
  "path_exists w p = (case stat w p of None \<Rightarrow> False | Some n \<Rightarrow> True)"

definition is_file :: "world \<Rightarrow> path \<Rightarrow> bool" where
  "is_file w p = (case stat w p of Some (File b) \<Rightarrow> True | _ \<Rightarrow> False)"

definition path_name :: "path \<Rightarrow> string" where
  "path_name p = (if p = [] then [] else last p)"

definition read_bytes :: "world \<Rightarrow> path \<Rightarrow> error + bytes" where
  "read_bytes w p =
     (case stat w p of
        None \<Rightarrow> Inl FileNotFoundError
      | Some Dir \<Rightarrow> Inl IsADirectoryError
      | Some (File b) \<Rightarrow> Inr b)"

text \<open>\<open>open(p, 'wb')\<close> followed by the writes and the close: the file is created or
  truncated and holds the data written.\<close>

definition write_bytes :: "path \<Rightarrow> bytes \<Rightarrow> world \<Rightarrow> (error + unit) \<times> world" where
  "write_bytes p data w =
     (case stat w p of
        Some Dir \<Rightarrow> (Inl IsADirectoryError, w)
      | _ \<Rightarrow>
          (case stat w (butlast p) of
             None \<Rightarrow> (Inl FileNotFoundError, w)
           | Some (File b) \<Rightarrow> (Inl NotADirectoryError, w)
           | Some Dir \<Rightarrow> (Inr (), w\<lparr>files := AList.update p (File data) (files w)\<rparr>)))"

text \<open>\<open>Path.unlink\<close>: the entry goes, the contents stay on the medium.\<close>

definition unlink :: "path \<Rightarrow> world \<Rightarrow> (error + unit) \<times> world" where
  "unlink p w =
     (case stat w p of
        None \<Rightarrow> (Inl FileNotFoundError, w)
      | Some Dir \<Rightarrow> (Inl IsADirectoryError, w)
      | Some (File b) \<Rightarrow>
          (Inr (), w\<lparr>files := AList.delete p (files w), residue := residue w @ [b]\<rparr>))"

text \<open>\<open>Path.mkdir(parents=True, exist_ok=True)\<close>.\<close>

fun mkdir_entries :: "path \<Rightarrow> (path \<times> node) list \<Rightarrow> error + (path \<times> node) list" where
  "mkdir_entries p fs =
     (if p = [] then Inr fs
      else (case map_of fs p of
              Some Dir \<Rightarrow> Inr fs
            | Some (File b) \<Rightarrow> Inl FileExistsError
            | None \<Rightarrow>
                (case mkdir_entries (butlast p) fs of
                   Inl e \<Rightarrow> Inl NotADirectoryError
                 | Inr fs' \<Rightarrow> Inr (fs' @ [(p, Dir)]))))"

declare mkdir_entries.simps [simp del]

definition mkdir_parents :: "path \<Rightarrow> world \<Rightarrow> (error + unit) \<times> world" where
  "mkdir_parents p w =
     (case mkdir_entries p (files w) of
        Inl e \<Rightarrow> (Inl e, w)
      | Inr fs' \<Rightarrow> (Inr (), w\<lparr>files := fs'\<rparr>))"

definition iterdir :: "path \<Rightarrow> world \<Rightarrow> error + path list" where
  "iterdir d w =
     (case stat w d of
        None \<Rightarrow> Inl FileNotFoundError
      | Some (File b) \<Rightarrow> Inl NotADirectoryError
      | Some Dir \<Rightarrow> Inr (filter (\<lambda>p. p \<noteq> [] \<and> butlast p = d) (map fst (files w))))"

text \<open>\<open>d.rglob('*')\<close>: everything below \<open>d\<close>; nothing when \<open>d\<close> is not a directory.\<close>

definition rglob :: "path \<Rightarrow> world \<Rightarrow> path list" where
  "rglob d w =
     (case stat w d of
        Some Dir \<Rightarrow> filter (\<lambda>p. length d < length p \<and> take (length d) p = d) (map fst (files w))
      | _ \<Rightarrow> [])"

subsection \<open>Strings\<close>

text \<open>A \<open>char\<close> stands for the code point of the same number, so the model covers the
  names whose code points are below 256. \<open>isalnum\<close> and \<open>lower\<close> are Python's
  \<open>str.isalnum\<close> and \<open>str.lower\<close> on these code points.\<close>

definition in_range :: "nat \<Rightarrow> nat \<Rightarrow> char \<Rightarrow> bool" where
  "in_range lo hi c = (lo \<le> of_char c \<and> (of_char c :: nat) \<le> hi)"

definition isalnum :: "char \<Rightarrow> bool" where
  "isalnum c =
     (in_range 48 57 c \<or> in_range 65 90 c \<or> in_range 97 122 c \<or> in_range 170 170 c
      \<or> in_range 178 179 c \<or> in_range 181 181 c \<or> in_range 185 186 c
      \<or> in_range 188 190 c \<or> in_range 192 214 c \<or> in_range 216 246 c
      \<or> in_range 248 255 c)"

definition lower_char :: "char \<Rightarrow> char" where
  "lower_char c =
     (if in_range 65 90 c \<or> in_range 192 214 c \<or> in_range 216 222 c
      then char_of (of_char c + (32 :: nat)) else c)"

definition lower :: "string \<Rightarrow> string" where
  "lower s = map lower_char s"

definition startswith :: "string \<Rightarrow> string \<Rightarrow> bool" where
  "startswith s q = (take (length q) s = q)"

definition endswith :: "string \<Rightarrow> string \<Rightarrow> bool" where
  "endswith s q = (length q \<le> length s \<and> drop (length s - length q) s = q)"

text \<open>\<open>s.split('__', 1)\<close> when \<open>'__' in s\<close>: the parts before and after the first
  occurrence; \<open>None\<close> when \<open>'__'\<close> does not occur.\<close>

fun split_dunder :: "string \<Rightarrow> (string \<times> string) option" where
  "split_dunder (a # b # cs) =
     (if a = CHR ''_'' \<and> b = CHR ''_'' then Some ([], cs)
      else (case split_dunder (b # cs) of
              None \<Rightarrow> None
            | Some (h, t) \<Rightarrow> Some (a # h, t)))"
| "split_dunder cs = None"

text \<open>The bytes of an ASCII string written to a text file.\<close>

definition str_bytes :: "string \<Rightarrow> bytes" where
  "str_bytes s = map (\<lambda>c. of_nat (of_char c)) s"

text \<open>\<open>str(path)\<close> of a relative path.\<close>

fun path_str :: "path \<Rightarrow> string" where
  "path_str [] = ''.''"
| "path_str [c] = c"
| "path_str (c # cs) = c @ ''/'' @ path_str cs"

subsection \<open>Key vault\<close>

definition init_data_dir :: "library \<Rightarrow> path \<Rightarrow> string option \<Rightarrow> world \<Rightarrow> (error + unit) \<times> world" where
  "init_data_dir L data_dir password w =
     (case mkdir_parents data_dir w of
        (Inl e, w1) \<Rightarrow> (Inl e, w1)
      | (Inr u1, w1) \<Rightarrow>
     let config_path = data_dir @ [CONFIG_NAME];
         storage = data_dir @ [STORAGE_DIRNAME]
     in
     (case mkdir_parents storage w1 of
        (Inl e, w2) \<Rightarrow> (Inl e, w2)
      | (Inr u2, w2) \<Rightarrow>
     if path_exists w2 config_path \<and> path_exists w2 (data_dir @ [MASTER_KEY_ENC])
     then (Inr (), w2)
     else
     (case token_bytes 32 w2 of (master_key, w3) \<Rightarrow>
     (case token_bytes SALT_LEN w3 of (salt, w4) \<Rightarrow>
     (case (case password of
              None \<Rightarrow> (case token_bytes 16 w4 of (r, w') \<Rightarrow> (b64encode L r, w'))
            | Some pw \<Rightarrow> (pw, w4)) of (password', w5) \<Rightarrow>
     (case derive_key L password' salt PBKDF2_ITER of
        Inl e \<Rightarrow> (Inl e, w5)
      | Inr dk \<Rightarrow>
     (case encrypt_with_key L master_key dk w5 of
        (Inl e, w6) \<Rightarrow> (Inl e, w6)
      | (Inr enc, w6) \<Rightarrow>
     (case write_bytes (data_dir @ [MASTER_KEY_ENC]) enc w6 of
        (Inl e, w7) \<Rightarrow> (Inl e, w7)
      | (Inr u7, w7) \<Rightarrow>
     let config = [(''salt'', JStr (b64encode L salt)), (''iterations'', JInt PBKDF2_ITER)]
     in
     (case write_bytes config_path (json_dump L config) w7 of
        (Inl e, w8) \<Rightarrow> (Inl e, w8)
      | (Inr u8, w8) \<Rightarrow>
     (case token_bytes 24 w8 of (r, w9) \<Rightarrow>
     let rec = b64encode L r
     in
     (case write_bytes (data_dir @ [RECOVERY]) (str_bytes rec) w9 of
        (Inl e, w10) \<Rightarrow> (Inl e, w10)
      | (Inr u10, w10) \<Rightarrow> (Inr (), w10))))))))))))"

definition load_master_key :: "library \<Rightarrow> path \<Rightarrow> string option \<Rightarrow> world \<Rightarrow> error + bytes" where
  "load_master_key L data_dir password w =
     (let cfg = data_dir @ [CONFIG_NAME];
          mk_enc = data_dir @ [MASTER_KEY_ENC]
      in
      if \<not> path_exists w cfg \<or> \<not> path_exists w mk_enc then Inl FileNotFoundError
      else
      (case read_bytes w cfg of
         Inl e \<Rightarrow> Inl e
       | Inr raw \<Rightarrow>
      (case json_load L raw of
         Inl e \<Rightarrow> Inl e
       | Inr config \<Rightarrow>
      (case map_of config ''salt'' of
         None \<Rightarrow> Inl KeyError
       | Some (JInt n) \<Rightarrow> Inl TypeError
       | Some JNull \<Rightarrow> Inl TypeError
       | Some (JStr s) \<Rightarrow>
      (case b64decode L s of
         Inl e \<Rightarrow> Inl e
       | Inr salt \<Rightarrow>
      let iterations = (case map_of config ''iterations'' of
                          None \<Rightarrow> JInt PBKDF2_ITER
                        | Some v \<Rightarrow> v)
      in
      (case password of
         None \<Rightarrow> Inl ValueError
       | Some pw \<Rightarrow>
      (case (case iterations of
               JInt n \<Rightarrow> derive_key L pw salt n
             | _ \<Rightarrow> Inl TypeError) of
         Inl e \<Rightarrow> Inl e
       | Inr dk \<Rightarrow>
      (case read_bytes w mk_enc of
         Inl e \<Rightarrow> Inl e
       | Inr enc \<Rightarrow>
      (case decrypt_with_key L enc dk of
         Inl e \<Rightarrow> Inl ValueError
       | Inr mk \<Rightarrow> Inr mk)))))))))"

subsection \<open>Storage manager\<close>

definition sanitize_filename :: "string \<Rightarrow> string" where
  "sanitize_filename fn =
     concat (map (\<lambda>c. if isalnum c \<or> c \<in> set ''._-'' then [c] else ''_'') fn)"

subsection \<open>Secure erase\<close>

text \<open>\<open>f.write(chunk)\<close> at position \<open>pos\<close> of a file opened \<open>'r+b'\<close>.\<close>

definition write_at :: "path \<Rightarrow> nat \<Rightarrow> bytes \<Rightarrow> world \<Rightarrow> world" where
  "write_at p pos chunk w =
     (case stat w p of
        Some (File b) \<Rightarrow>
          w\<lparr>files := AList.update p (File (take pos b @ chunk @ drop (pos + length chunk) b)) (files w)\<rparr>
      | _ \<Rightarrow> w)"

text \<open>The inner loop \<open>while remaining > 0\<close> of one pass.\<close>

function overwrite_from :: "path \<Rightarrow> nat \<Rightarrow> nat \<Rightarrow> world \<Rightarrow> world" where
  "overwrite_from p pos remaining w =
     (if remaining > 0
      then (case token_bytes (min 8192 remaining) w of (chunk, w1) \<Rightarrow>
              overwrite_from p (pos + length chunk) (remaining - length chunk) (write_at p pos chunk w1))
      else w)"
  by pat_completeness auto
termination
  by (relation "measure (\<lambda>(p, pos, remaining, w). remaining)") (auto simp: token_bytes_def)

declare overwrite_from.simps [simp del]

text \<open>The loop \<open>for _ in range(passes)\<close>: each pass seeks to 0 and rewrites
  \<open>st_size\<close> bytes.\<close>

primrec overwrite_passes :: "path \<Rightarrow> nat \<Rightarrow> nat \<Rightarrow> world \<Rightarrow> world" where
  "overwrite_passes p st_size 0 w = w"
| "overwrite_passes p st_size (Suc n) w =
     overwrite_passes p st_size n (overwrite_from p 0 st_size w)"

definition secure_overwrite_and_delete :: "path \<Rightarrow> nat \<Rightarrow> world \<Rightarrow> (error + unit) \<times> world" where
  "secure_overwrite_and_delete p passes w =
     (if \<not> path_exists w p then (Inr (), w)
      else (case stat w p of
              Some (File b) \<Rightarrow>
                (let st_size = length b;
                     w1 = overwrite_passes p st_size passes w
                 in case unlink p w1 of (r, w2) \<Rightarrow> (Inr (), w2))
            | _ \<Rightarrow> (Inl IsADirectoryError, w)))"

subsection \<open>Paths made from strings (pathlib)\<close>

text \<open>A \<open>path\<close> is the list of the components of an absolute path without \<open>.\<close> and
  \<open>..\<close>, and names one entry of the world. A path that pathlib makes from a string
  can have \<open>..\<close> among its components, and the file system decides which entry it
  names.

  How pathlib reads a string: it is cut at the slashes, and the empty components and the
  components \<open>.\<close> are dropped.\<close>

fun split_slash :: "string \<Rightarrow> string list" where
  "split_slash [] = [[]]"
| "split_slash (c # cs) =
     (if c = CHR ''/'' then [] # split_slash cs
      else (case split_slash cs of
              [] \<Rightarrow> [[c]]
            | x # xs \<Rightarrow> (c # x) # xs))"

definition path_parts :: "string \<Rightarrow> string list" where
  "path_parts s = filter (\<lambda>c. c \<noteq> [] \<and> c \<noteq> ''.'') (split_slash s)"

text \<open>\<open>d / s\<close>: the components of \<open>s\<close> after those of \<open>d\<close>; a string that starts with a
  slash replaces \<open>d\<close>.\<close>

definition joinpath :: "path \<Rightarrow> string \<Rightarrow> string list" where
  "joinpath d s = (if startswith s ''/'' then path_parts s else d @ path_parts s)"

text \<open>\<open>str(d / s)\<close>, the string handed to the operating system. The root of a string that
  starts with exactly two slashes is \<open>//\<close>.\<close>

fun join_slash :: "string list \<Rightarrow> string" where
  "join_slash [] = []"
| "join_slash [c] = c"
| "join_slash (c # cs) = c @ ''/'' @ join_slash cs"

definition root_of :: "string \<Rightarrow> string" where
  "root_of s = (if startswith s ''//'' \<and> \<not> startswith s ''///'' then ''//'' else ''/'')"

definition fspath :: "path \<Rightarrow> string \<Rightarrow> string" where
  "fspath d s =
     (if startswith s ''/'' then root_of s @ join_slash (path_parts s)
      else ''/'' @ join_slash (d @ path_parts s))"

text \<open>The number of bytes of a string in UTF-8, for code points below 256; and the limits
  of Linux: a component of more than \<open>NAME_MAX\<close> bytes and a path of \<open>PATH_MAX\<close> bytes
  or more are refused.\<close>

definition utf8_length :: "string \<Rightarrow> nat" where
  "utf8_length s = sum_list (map (\<lambda>c. if (of_char c :: nat) < 128 then 1 else 2) s)"

definition NAME_MAX :: nat where
  "NAME_MAX = 255"

definition PATH_MAX :: nat where
  "PATH_MAX = 4096"

text \<open>The walk of the file system along the components, from the entry \<open>cur\<close>: every
  step needs a directory to step from (\<open>ENOENT\<close> and \<open>ENOTDIR\<close> otherwise, which
  \<open>Path.exists\<close> turns into \<open>False\<close>), \<open>..\<close> steps to the parent, and a component that
  is too long is refused with \<open>ENAMETOOLONG\<close>, which \<open>Path.exists\<close> lets through as
  \<open>OSError\<close>.\<close>

fun walk :: "world \<Rightarrow> path \<Rightarrow> string list \<Rightarrow> error + path option" where
  "walk w cur [] = Inr (Some cur)"
| "walk w cur (c # cs) =
     (case stat w cur of
        Some Dir \<Rightarrow>
          if c = ''..'' then walk w (butlast cur) cs
          else if NAME_MAX < utf8_length c then Inl OSError
          else walk w (cur @ [c]) cs
      | _ \<Rightarrow> Inr None)"

text \<open>\<open>(d / s).exists()\<close>, with the entry found. A string with a zero byte makes
  \<open>os.stat\<close> raise \<open>ValueError\<close>, which \<open>Path.exists\<close> turns into \<open>False\<close>; a string
  that is too long is refused before the walk.\<close>

definition joined_exists :: "world \<Rightarrow> path \<Rightarrow> string \<Rightarrow> error + path option" where
  "joined_exists w d s =
     (if CHR 0x00 \<in> set (fspath d s) then Inr None
      else if PATH_MAX \<le> utf8_length (fspath d s) then Inl OSError
      else (case walk w [] (joinpath d s) of
              Inl e \<Rightarrow> Inl e
            | Inr None \<Rightarrow> Inr None
            | Inr (Some q) \<Rightarrow> if path_exists w q then Inr (Some q) else Inr None))"

subsection \<open>Lookup, store and delete\<close>

text \<open>The loop \<open>for p in storage_dir.iterdir()\<close> of \<open>find_stored_path\<close>.\<close>

fun find_stored_loop :: "world \<Rightarrow> string \<Rightarrow> path list \<Rightarrow> path option" where
  "find_stored_loop w stored_filename [] = None"
| "find_stored_loop w stored_filename (p # ps) =
     (if \<not> is_file w p then find_stored_loop w stored_filename ps
      else if lower (path_name p) = lower stored_filename
              \<or> lower (path_name p) = lower (stored_filename @ ''.jmn'')
      then Some p
      else if startswith (path_name p) stored_filename then Some p
      else (case split_dunder (path_name p) of
              Some (idpart, rest) \<Rightarrow>
                if lower idpart = lower stored_filename then Some p
                else find_stored_loop w stored_filename ps
            | None \<Rightarrow> find_stored_loop w stored_filename ps))"

text \<open>\<open>find_stored_path\<close>. The path returned is given as the entry it names: for \<open>direct\<close>
  and \<open>alt\<close> the entry that the walk of the file system reaches.\<close>

definition find_stored_path :: "path \<Rightarrow> string \<Rightarrow> world \<Rightarrow> error + path option" where
  "find_stored_path storage_dir stored_filename w =
     (case joined_exists w storage_dir stored_filename of
        Inl e \<Rightarrow> Inl e
      | Inr (Some direct) \<Rightarrow> Inr (Some direct)
      | Inr None \<Rightarrow>
     (case joined_exists w storage_dir (stored_filename @ ''.jmn'') of
        Inl e \<Rightarrow> Inl e
      | Inr (Some alt) \<Rightarrow> Inr (Some alt)
      | Inr None \<Rightarrow>
     (case iterdir storage_dir w of
        Inl e \<Rightarrow> Inl e
      | Inr ps \<Rightarrow> Inr (find_stored_loop w stored_filename ps))))"

text \<open>\<open>store_encrypted\<close>. The block that marks the blob hidden runs on Windows only and
  changes nothing the model holds; it is left out.\<close>

definition store_encrypted :: "library \<Rightarrow> path \<Rightarrow> string \<Rightarrow> path \<Rightarrow> world \<Rightarrow> (error + string) \<times> world" where
  "store_encrypted L input_path password data_dir w =
     (let storage = data_dir @ [STORAGE_DIRNAME]
      in
      (case mkdir_parents storage w of
         (Inl e, w1) \<Rightarrow> (Inl e, w1)
       | (Inr u1, w1) \<Rightarrow>
      (case load_master_key L data_dir (Some password) w1 of
         Inl e \<Rightarrow> (Inl e, w1)
       | Inr mk \<Rightarrow>
      (case uuid4 w1 of (idstr, w2) \<Rightarrow>
      let orig = sanitize_filename (path_name input_path);
          out_name = idstr @ ''__'' @ orig @ ''.jmn'';
          out_path = storage @ [out_name]
      in
      (case aesgcm_new L mk of
         Some e \<Rightarrow> (Inl e, w2)
       | None \<Rightarrow>
      (case token_bytes AESGCM_IV_LEN w2 of (iv, w3) \<Rightarrow>
      (case read_bytes w3 input_path of
         Inl e \<Rightarrow> (Inl e, w3)
       | Inr chunks \<Rightarrow>
      (case write_bytes out_path iv w3 of
         (Inl e, w4) \<Rightarrow> (Inl e, w4)
       | (Inr u4, w4) \<Rightarrow>
      (case read_bytes w4 input_path of
         Inl e \<Rightarrow> (Inl e, w4)
       | Inr data \<Rightarrow>
      (case aesgcm_encrypt L mk iv data of
         Inl e \<Rightarrow> (Inl e, w4)
       | Inr ct \<Rightarrow>
      (case write_bytes out_path (iv @ ct) w4 of
         (Inl e, w5) \<Rightarrow> (Inl e, w5)
       | (Inr u5, w5) \<Rightarrow>
      (case secure_overwrite_and_delete input_path 1 w5 of
         (Inr u6, w6) \<Rightarrow> (Inr out_name, w6)
       | (Inl e, w6) \<Rightarrow>
           (case unlink input_path w6 of (r, w7) \<Rightarrow> (Inr out_name, w7))))))))))))))"

definition delete_stored :: "string \<Rightarrow> string \<Rightarrow> path \<Rightarrow> world \<Rightarrow> (error + bool) \<times> world" where
  "delete_stored stored_filename password data_dir w =
     (let storage = data_dir @ [STORAGE_DIRNAME]
      in
      (case find_stored_path storage stored_filename w of
         Inl e \<Rightarrow> (Inl e, w)
       | Inr None \<Rightarrow> (Inr False, w)
       | Inr (Some p) \<Rightarrow>
           (case secure_overwrite_and_delete p 1 w of
              (Inr u, w1) \<Rightarrow> (Inr True, w1)
            | (Inl e, w1) \<Rightarrow>
                (case unlink p w1 of
                   (Inl e', w2) \<Rightarrow> (Inr False, w2)
                 | (Inr u, w2) \<Rightarrow> (Inr True, w2)))))"

subsection \<open>Backup\<close>

text \<open>The calls \<open>zf.write(p, arcname=...)\<close> that the block
  \<open>with zipfile.ZipFile(...) as zf\<close> makes, in order, as (path, arcname).\<close>

definition archive_writes :: "path \<Rightarrow> world \<Rightarrow> (path \<times> string) list" where
  "archive_writes data_dir w =
     (let storage = data_dir @ [STORAGE_DIRNAME];
          cfg = data_dir @ [CONFIG_NAME];
          rec = data_dir @ [RECOVERY]
      in
      (if path_exists w storage
       then map (\<lambda>p. (p, path_str (''storage'' # drop (length storage) p)))
                (filter (is_file w) (rglob storage w))
       else [])
      @ (if path_exists w cfg then [(cfg, ''config.json'')] else [])
      @ (if path_exists w rec then [(rec, ''recovery.txt'')] else []))"

text \<open>What \<open>zf.write(p, arcname)\<close> adds to the archive, as (member name, contents): the
  file, or for a directory (which \<open>cfg.exists()\<close> lets through) an empty member whose
  name ends in a slash.\<close>

definition zip_entry :: "world \<Rightarrow> path \<Rightarrow> string \<Rightarrow> (string \<times> bytes) list" where
  "zip_entry w p arcname =
     (case stat w p of
        None \<Rightarrow> []
      | Some (File b) \<Rightarrow> [(arcname, b)]
      | Some Dir \<Rightarrow> [(arcname @ ''/'', [])])"

text \<open>The members of the archive when the block is left.\<close>

definition archive_members :: "path \<Rightarrow> world \<Rightarrow> (string \<times> bytes) list" where
  "archive_members data_dir w =
     concat (map (\<lambda>(p, arcname). zip_entry w p arcname) (archive_writes data_dir w))"

text \<open>\<open>uuid.uuid4().hex\<close>: the digits of the UUID without the dashes.\<close>

definition uuid4_hex :: "world \<Rightarrow> string \<times> world" where
  "uuid4_hex w = (case uuid4 w of (u, w1) \<Rightarrow> (filter (\<lambda>c. c \<noteq> CHR ''-'') u, w1))"

definition create_encrypted_backup :: "library \<Rightarrow> string \<Rightarrow> path \<Rightarrow> string option \<Rightarrow> world \<Rightarrow> (error + path) \<times> world" where
  "create_encrypted_backup L password data_dir out_name w =
     (case (case out_name of
              None \<Rightarrow> (case uuid4_hex w of (h, w') \<Rightarrow> (''juman_backup_'' @ h @ ''.zip'', w'))
            | Some n \<Rightarrow> (n, w)) of (out_name', w1) \<Rightarrow>
      let zip_path = data_dir @ [out_name']
      in
      (case write_bytes zip_path [] w1 of
         (Inl e, w2) \<Rightarrow> (Inl e, w2)
       | (Inr u2, w2) \<Rightarrow>
      (case write_bytes zip_path (zip_deflated L (archive_members data_dir w2)) w2 of
         (Inl e, w3) \<Rightarrow> (Inl e, w3)
       | (Inr u3, w3) \<Rightarrow>
      (case load_master_key L data_dir (Some password) w3 of
         Inl e \<Rightarrow> (Inl e, w3)
       | Inr mk \<Rightarrow>
      (case read_bytes w3 zip_path of
         Inl e \<Rightarrow> (Inl e, w3)
       | Inr data \<Rightarrow>
      (case encrypt_with_key L data mk w3 of
         (Inl e, w4) \<Rightarrow> (Inl e, w4)
       | (Inr enc, w4) \<Rightarrow>
      let out_enc = data_dir @ [path_name zip_path @ BACKUP_SUFFIX]
      in
      (case write_bytes out_enc enc w4 of
         (Inl e, w5) \<Rightarrow> (Inl e, w5)
       | (Inr u5, w5) \<Rightarrow>
      (case unlink zip_path w5 of (r, w6) \<Rightarrow> (Inr out_enc, w6)))))))))"

subsection \<open>Contracts of the AES-GCM library\<close>

text \<open>\<open>AESGCM._MAX_SIZE\<close>: the library refuses to encrypt more bytes than this.\<close>

definition AESGCM_MAX_SIZE :: nat where
  "AESGCM_MAX_SIZE = 2 ^ 31 - 1"

text \<open>What the module relies on from \<open>AESGCM\<close>, with a 32-byte key and a 12-byte nonce:
  for a plaintext within the size limit the constructor and \<open>encrypt\<close> return; and
  whenever \<open>encrypt\<close> returns, \<open>decrypt\<close> gives the plaintext back.\<close>

definition aead_correct :: "library \<Rightarrow> bool" where
  "aead_correct L =
     (\<forall>key iv plaintext. length key = 32 \<longrightarrow> length iv = AESGCM_IV_LEN \<longrightarrow>
        (length plaintext \<le> AESGCM_MAX_SIZE \<longrightarrow>
           aesgcm_new L key = None \<and> (\<exists>ct. aesgcm_encrypt L key iv plaintext = Inr ct))
        \<and> (\<forall>ct. aesgcm_encrypt L key iv plaintext = Inr ct \<longrightarrow>
                  aesgcm_decrypt L key iv ct = Inr plaintext))"

text \<open>\<open>decrypt\<close> accepts only what \<open>encrypt\<close> produces under the same key and nonce, and
  what \<open>encrypt\<close> produces is the ciphertext followed by a 16-byte tag.\<close>

definition aead_sound :: "library \<Rightarrow> bool" where
  "aead_sound L =
     (\<forall>key iv ct plaintext.
        (aesgcm_decrypt L key iv ct = Inr plaintext \<longrightarrow> aesgcm_encrypt L key iv plaintext = Inr ct)
        \<and> (aesgcm_encrypt L key iv plaintext = Inr ct \<longrightarrow> length ct = length plaintext + 16))"

text \<open>The exceptions of the library: the constructor raises \<open>ValueError\<close> for a key it
  does not accept; \<open>decrypt\<close> raises \<open>ValueError\<close> for a nonce of fewer than 8 bytes
  and, for a nonce of 8 to 128 bytes and data within the size limit, nothing but
  \<open>InvalidTag\<close>.\<close>

definition aead_raises :: "library \<Rightarrow> bool" where
  "aead_raises L =
     (\<forall>key iv ct e.
        (aesgcm_new L key = Some e \<longrightarrow> e = ValueError)
        \<and> (length iv < 8 \<longrightarrow> aesgcm_decrypt L key iv ct = Inl ValueError)
        \<and> (8 \<le> length iv \<longrightarrow> length iv \<le> 128 \<longrightarrow> length ct \<le> AESGCM_MAX_SIZE \<longrightarrow>
              aesgcm_decrypt L key iv ct = Inl e \<longrightarrow> e = InvalidTag))"

text \<open>A blob is valid under a key when \<open>encrypt_with_key\<close> can return it under that key.\<close>

definition valid_blob :: "library \<Rightarrow> bytes \<Rightarrow> bytes \<Rightarrow> bool" where
  "valid_blob L key blob = (\<exists>plaintext w w'. encrypt_with_key L plaintext key w = (Inr blob, w'))"

subsection \<open>Predicates of the statements\<close>

text \<open>The characters \<open>_sanitize_filename\<close> keeps.\<close>

definition allowed_char :: "char \<Rightarrow> bool" where
  "allowed_char c = (isalnum c \<or> c \<in> set ''._-'')"

text \<open>The three tests the loop of \<open>find_stored_path\<close> makes on one directory entry.\<close>

definition entry_matches :: "world \<Rightarrow> string \<Rightarrow> path \<Rightarrow> bool" where
  "entry_matches w stored_filename p =
     (is_file w p \<and>
      (lower (path_name p) = lower stored_filename
       \<or> lower (path_name p) = lower (stored_filename @ ''.jmn'')
       \<or> startswith (path_name p) stored_filename
       \<or> (case split_dunder (path_name p) of
             Some (idpart, rest) \<Rightarrow> lower idpart = lower stored_filename
           | None \<Rightarrow> False)))"

text \<open>The name of the blob \<open>store_encrypted\<close> writes for an input file.\<close>

definition blob_name :: "world \<Rightarrow> path \<Rightarrow> string" where
  "blob_name w input_path =
     uuids w 0 @ ''__'' @ sanitize_filename (path_name input_path) @ ''.jmn''"


subsection \<open>A small library and a small vault to run the functions on\<close>

text \<open>A stand-in for AES-GCM with the same interface: the key lengths and nonce lengths
  the real constructor and methods accept, a ciphertext as long as the plaintext, a
  16-byte tag over key, nonce and ciphertext.\<close>

definition demo_pad :: "bytes \<Rightarrow> bytes \<Rightarrow> 8 word" where
  "demo_pad key iv = sum_list key + sum_list iv + 1"

definition demo_tag :: "bytes \<Rightarrow> bytes \<Rightarrow> bytes \<Rightarrow> bytes" where
  "demo_tag key iv ct = replicate 16 (demo_pad key iv + sum_list ct)"

definition demo_new :: "bytes \<Rightarrow> error option" where
  "demo_new key =
     (if length key = 16 \<or> length key = 24 \<or> length key = 32 then None else Some ValueError)"

definition demo_encrypt :: "bytes \<Rightarrow> bytes \<Rightarrow> bytes \<Rightarrow> error + bytes" where
  "demo_encrypt key iv data =
     (if length iv < 8 \<or> 128 < length iv then Inl ValueError
      else (let ct = map (\<lambda>b. b + demo_pad key iv) data in Inr (ct @ demo_tag key iv ct)))"

definition demo_decrypt :: "bytes \<Rightarrow> bytes \<Rightarrow> bytes \<Rightarrow> error + bytes" where
  "demo_decrypt key iv data =
     (if length iv < 8 \<or> 128 < length iv then Inl ValueError
      else if length data < 16 then Inl InvalidTag
      else (let ct = take (length data - 16) data;
                tag = drop (length data - 16) data
            in if tag = demo_tag key iv ct then Inr (map (\<lambda>b. b - demo_pad key iv) ct)
               else Inl InvalidTag))"

definition demo_library :: library where
  "demo_library = \<lparr>
     aesgcm_new = demo_new,
     aesgcm_encrypt = demo_encrypt,
     aesgcm_decrypt = demo_decrypt,
     pbkdf2_sha256 = (\<lambda>password salt iterations.
        if iterations \<le> 0 then Inl ValueError
        else Inr (replicate 32 (of_nat (length password) + sum_list salt))),
     b64encode = map (\<lambda>b. char_of (unat b)),
     b64decode = (\<lambda>s. Inr (map (\<lambda>c. of_nat (of_char c)) s)),
     json_dump = (\<lambda>config. case map_of config ''salt'' of
                              Some (JStr s) \<Rightarrow> str_bytes s
                            | _ \<Rightarrow> []),
     json_load = (\<lambda>raw. Inr [(''salt'', JStr (map (\<lambda>b. char_of (unat b)) raw)),
                             (''iterations'', JInt 200000)]),
     zip_deflated = (\<lambda>members. concat (map (\<lambda>(name, data). str_bytes name @ [0] @ data) members))
   \<rparr>"

definition demo_world :: world where
  "demo_world = \<lparr>files = [], residue = [], entropy = (\<lambda>i. 7), uuids = (\<lambda>i. ''1b4e28ba-2fa1-41d2-883f-0016d3cca427'')\<rparr>"

definition lookup_world :: world where
  "lookup_world = \<lparr>files =
     [([''JuMan''], Dir), ([''JuMan'', ''storage''], Dir),
      ([''JuMan'', ''storage'', ''abcdef__xyz.jmn''], File [1]),
      ([''JuMan'', ''storage'', ''ABC''], File [2])],
      residue = [], entropy = (\<lambda>i. 7), uuids = (\<lambda>i. ''1b4e28ba-2fa1-41d2-883f-0016d3cca427'')\<rparr>"

definition precedence_world :: world where
  "precedence_world = \<lparr>files =
     [([''JuMan''], Dir), ([''JuMan'', ''storage''], Dir),
      ([''JuMan'', ''storage'', ''abcdef__xyz.jmn''], File [1]),
      ([''JuMan'', ''storage'', ''ABC''], File [2]),
      ([''JuMan'', ''storage'', ''abcd''], File [3]),
      ([''JuMan'', ''storage'', ''abcde.jmn''], File [4])],
      residue = [], entropy = (\<lambda>i. 7), uuids = (\<lambda>i. ''1b4e28ba-2fa1-41d2-883f-0016d3cca427'')\<rparr>"

definition demo_home :: world where
  "demo_home = \<lparr>files =
     [([''home''], Dir), ([''home'', ''my report.pdf''], File [80, 68, 70])],
     residue = [], entropy = (\<lambda>i. 7), uuids = (\<lambda>i. ''1b4e28ba-2fa1-41d2-883f-0016d3cca427'')\<rparr>"

definition demo_vault :: world where
  "demo_vault = \<lparr>files =
     [([''home''], Dir), ([''home'', ''my report.pdf''], File [80, 68, 70]),
      ([''home'', ''JuMan''], Dir), ([''home'', ''JuMan'', ''storage''], Dir),
      ([''home'', ''JuMan'', ''master.key.enc''],
         File (replicate 12 7 @ replicate 32 156 @ replicate 16 21)),
      ([''home'', ''JuMan'', ''config.json''], File (replicate 16 7)),
      ([''home'', ''JuMan'', ''recovery.txt''], File (replicate 24 7))],
     residue = [], entropy = (\<lambda>i. 7), uuids = (\<lambda>i. ''1b4e28ba-2fa1-41d2-883f-0016d3cca427'')\<rparr>"

definition demo_stored :: world where
  "demo_stored = \<lparr>files =
     [([''home''], Dir),
      ([''home'', ''JuMan''], Dir), ([''home'', ''JuMan'', ''storage''], Dir),
      ([''home'', ''JuMan'', ''master.key.enc''],
         File (replicate 12 7 @ replicate 32 156 @ replicate 16 21)),
      ([''home'', ''JuMan'', ''config.json''], File (replicate 16 7)),
      ([''home'', ''JuMan'', ''recovery.txt''], File (replicate 24 7)),
      ([''home'', ''JuMan'', ''storage'', ''1b4e28ba-2fa1-41d2-883f-0016d3cca427__my_report.pdf.jmn''],
         File (replicate 12 7 @ [133, 121, 123] @ replicate 16 174))],
     residue = [[7, 7, 7]], entropy = (\<lambda>i. 7), uuids = (\<lambda>i. ''1b4e28ba-2fa1-41d2-883f-0016d3cca427'')\<rparr>"

text \<open>A vault that holds the key and the config, and no \<open>storage\<close> directory.\<close>

definition bare_vault :: world where
  "bare_vault = \<lparr>files =
     [([''home''], Dir), ([''home'', ''JuMan''], Dir),
      ([''home'', ''JuMan'', ''master.key.enc''],
         File (replicate 12 7 @ replicate 32 156 @ replicate 16 21)),
      ([''home'', ''JuMan'', ''config.json''], File (replicate 16 7)),
      ([''home'', ''JuMan'', ''recovery.txt''], File (replicate 24 7))],
     residue = [], entropy = (\<lambda>i. 7), uuids = (\<lambda>i. ''1b4e28ba-2fa1-41d2-883f-0016d3cca427'')\<rparr>"

text \<open>The stand-in library with the size limit of the real \<open>AESGCM\<close>, which raises
  \<open>OverflowError\<close> for data of more than \<open>2^31 - 1\<close> bytes; and a vault beside a file
  of \<open>2^31\<close> bytes.\<close>

definition capped_library :: library where
  "capped_library = demo_library\<lparr>
     aesgcm_encrypt :=
       (\<lambda>key iv data. if 2 ^ 31 - 1 < length data then Inl OverflowError
                        else demo_encrypt key iv data),
     aesgcm_decrypt :=
       (\<lambda>key iv data. if length iv < 8 \<or> 128 < length iv then Inl ValueError
                        else if 2 ^ 31 - 1 < length data - 16 then Inl OverflowError
                        else demo_decrypt key iv data)\<rparr>"

definition big_file :: bytes where
  "big_file = replicate (2 ^ 31) 0"

definition big_vault :: world where
  "big_vault = \<lparr>files =
     [([''home''], Dir), ([''home'', ''big.iso''], File big_file),
      ([''home'', ''JuMan''], Dir), ([''home'', ''JuMan'', ''storage''], Dir),
      ([''home'', ''JuMan'', ''master.key.enc''],
         File (replicate 12 7 @ replicate 32 156 @ replicate 16 21)),
      ([''home'', ''JuMan'', ''config.json''], File (replicate 16 7)),
      ([''home'', ''JuMan'', ''recovery.txt''], File (replicate 24 7))],
     residue = [], entropy = (\<lambda>i. 7), uuids = (\<lambda>i. ''1b4e28ba-2fa1-41d2-883f-0016d3cca427'')\<rparr>"

section \<open>Properties\<close>

lemmas fs_defs = stat_def path_exists_def is_file_def read_bytes_def write_bytes_def unlink_def
  mkdir_parents_def iterdir_def rglob_def path_name_def token_bytes_def uuid4_def

lemmas const_defs = CONFIG_NAME_def MASTER_KEY_ENC_def RECOVERY_def STORAGE_DIRNAME_def
  BACKUP_SUFFIX_def PBKDF2_ITER_def SALT_LEN_def AESGCM_IV_LEN_def

lemmas demo_defs = demo_library_def demo_new_def demo_encrypt_def demo_decrypt_def
  demo_tag_def demo_pad_def

subsection \<open>Encryption round trip and tamper detection\<close>

lemma token_bytes_length: "token_bytes n w = (bs, w') \<Longrightarrow> length bs = n"
  by (auto simp: token_bytes_def)

lemma capped_correct: "aead_correct capped_library"
  by (auto simp: aead_correct_def capped_library_def demo_library_def demo_new_def
      demo_encrypt_def demo_decrypt_def AESGCM_IV_LEN_def AESGCM_MAX_SIZE_def Let_def
      demo_tag_def o_def split: if_splits)

lemma capped_sound: "aead_sound capped_library"
  by (auto simp: aead_sound_def capped_library_def demo_library_def demo_encrypt_def
      demo_decrypt_def demo_tag_def Let_def o_def split: if_splits)
    (metis append_take_drop_id)

lemma capped_raises: "aead_raises capped_library"
  by (auto simp: aead_raises_def capped_library_def demo_library_def demo_new_def
      demo_decrypt_def AESGCM_MAX_SIZE_def Let_def split: if_splits)

lemma length_big_file: "length big_file = 2 ^ 31"
  by (simp only: big_file_def length_replicate)

text \<open>
  C1 as stated fails: not every byte string can be encrypted. With the size limit of
  \<open>AESGCM.encrypt\<close>, \<open>_encrypt_with_key\<close> of \<open>2^31\<close> bytes under a 32-byte key raises
  \<open>OverflowError\<close>, so there is no blob to decrypt.
\<close>

theorem encrypt_decrypt_roundtrip_counterexample:
  "fst (encrypt_with_key capped_library big_file (replicate 32 5) demo_world) = Inl OverflowError
   \<and> length big_file = 2 ^ 31
   \<and> length (replicate 32 5 :: bytes) = 32"
  by (simp add: encrypt_with_key_def capped_library_def demo_library_def demo_new_def
      token_bytes_def length_big_file)

text \<open>
  C1, amended. For every byte string of at most \<open>2^31 - 1\<close> bytes and every 32-byte
  key, \<open>_encrypt_with_key\<close> returns a blob and \<open>_decrypt_with_key\<close> of that blob under
  the same key returns the byte string, whatever nonce the random source delivers;
  AES-GCM itself is the library's, taken with its contract \<open>aead_correct\<close>.
\<close>

theorem encrypt_decrypt_roundtrip:
  assumes "aead_correct L" and "length key = 32" and "length plaintext \<le> AESGCM_MAX_SIZE"
  shows "\<exists>blob w'. encrypt_with_key L plaintext key w = (Inr blob, w')
           \<and> decrypt_with_key L blob key = Inr plaintext"
proof -
  obtain iv w1 where tb: "token_bytes AESGCM_IV_LEN w = (iv, w1)"
    by (cases "token_bytes AESGCM_IV_LEN w")
  then have len: "length iv = AESGCM_IV_LEN"
    by (rule token_bytes_length)
  from assms len obtain ct where new: "aesgcm_new L key = None"
    and enc: "aesgcm_encrypt L key iv plaintext = Inr ct"
    unfolding aead_correct_def by blast
  from assms(1,2) len enc have dec: "aesgcm_decrypt L key iv ct = Inr plaintext"
    unfolding aead_correct_def by blast
  have "encrypt_with_key L plaintext key w = (Inr (iv @ ct), w1)"
    by (simp add: encrypt_with_key_def new tb enc)
  moreover have "decrypt_with_key L (iv @ ct) key = Inr plaintext"
    by (simp add: decrypt_with_key_def new len dec)
  ultimately show ?thesis by blast
qed

theorem encrypt_decrypt_roundtrip_witness:
  "\<exists>blob w'. encrypt_with_key capped_library [1, 2, 3] (replicate 32 5) demo_world = (Inr blob, w')
      \<and> decrypt_with_key capped_library blob (replicate 32 5) = Inr [1, 2, 3]"
  by (rule encrypt_decrypt_roundtrip [OF capped_correct]) (simp_all add: AESGCM_MAX_SIZE_def)

lemma encrypt_with_key_Inr:
  assumes "encrypt_with_key L plaintext key w = (Inr blob, w')"
  shows "\<exists>iv ct. length iv = AESGCM_IV_LEN \<and> aesgcm_new L key = None
           \<and> aesgcm_encrypt L key iv plaintext = Inr ct \<and> blob = iv @ ct"
proof -
  obtain iv w1 where tb: "token_bytes AESGCM_IV_LEN w = (iv, w1)"
    by (cases "token_bytes AESGCM_IV_LEN w")
  then have "length iv = AESGCM_IV_LEN"
    by (rule token_bytes_length)
  with assms tb show ?thesis
    by (auto simp: encrypt_with_key_def split: option.splits sum.splits)
qed

lemma valid_blobI:
  assumes "aesgcm_new L key = None" and "length iv = AESGCM_IV_LEN"
    and "aesgcm_encrypt L key iv plaintext = Inr ct"
  shows "valid_blob L key (iv @ ct)"
proof -
  define w :: world
    where "w = \<lparr>files = [], residue = [], entropy = (\<lambda>i. iv ! i), uuids = (\<lambda>i. [])\<rparr>"
  have "map ((!) iv) [0..<length iv] = iv"
    by (rule map_nth)
  with assms(2) have "map (entropy w) [0..<AESGCM_IV_LEN] = iv"
    by (simp add: w_def)
  then have "fst (encrypt_with_key L plaintext key w) = Inr (iv @ ct)"
    by (simp add: encrypt_with_key_def assms token_bytes_def)
  then show ?thesis
    unfolding valid_blob_def by (metis prod.collapse)
qed

lemma valid_blob_decrypts:
  assumes "aead_correct L" and "length key = 32" and "valid_blob L key blob"
  shows "\<exists>plaintext. decrypt_with_key L blob key = Inr plaintext"
proof -
  from assms(3) obtain plaintext w w'
    where "encrypt_with_key L plaintext key w = (Inr blob, w')"
    unfolding valid_blob_def by blast
  then obtain iv ct where iv: "length iv = AESGCM_IV_LEN"
    and new: "aesgcm_new L key = None"
    and enc: "aesgcm_encrypt L key iv plaintext = Inr ct" and blob: "blob = iv @ ct"
    using encrypt_with_key_Inr by blast
  from assms(1,2) iv enc have "aesgcm_decrypt L key iv ct = Inr plaintext"
    unfolding aead_correct_def by blast
  with new iv blob show ?thesis
    by (simp add: decrypt_with_key_def)
qed

text \<open>
  C2 as stated fails: the exception is not always an integrity error. A blob of 5 bytes,
  truncated below nonce plus tag, leaves a nonce of 5 bytes, and a key of 3 bytes is not
  a key: in both cases the library raises \<open>ValueError\<close>, which \<open>_decrypt_with_key\<close> lets
  through, where a blob with a changed ciphertext byte gives \<open>InvalidTag\<close>.
\<close>

theorem decrypt_rejects_invalid_counterexample:
  "decrypt_with_key capped_library [1, 2, 3, 4, 5] (replicate 32 5) = Inl ValueError
   \<and> length ([1, 2, 3, 4, 5] :: bytes) < AESGCM_IV_LEN + 16
   \<and> decrypt_with_key capped_library
        (replicate 12 7 @ [246, 247, 249] @ replicate 16 218) (replicate 3 5)
      = Inl ValueError
   \<and> ValueError \<noteq> InvalidTag"
  by (simp add: decrypt_with_key_def capped_library_def demo_library_def demo_new_def
      demo_decrypt_def AESGCM_IV_LEN_def)

text \<open>
  C2, amended. A blob that \<open>_encrypt_with_key\<close> cannot have produced under the key (a
  wrong tag, a changed ciphertext), or one shorter than nonce plus tag, makes
  \<open>_decrypt_with_key\<close> raise: it returns no byte string at all. The exception is the one
  \<open>AESGCM\<close> raises, which the function lets through: for a blob of at most \<open>2^31 - 1\<close>
  bytes it is \<open>InvalidTag\<close> when the key is one the constructor accepts and the blob has
  at least 8 bytes, and \<open>ValueError\<close> otherwise. That \<open>AESGCM.decrypt\<close> accepts only
  genuine outputs, and which exceptions it raises, are the library's contracts
  \<open>aead_sound\<close> and \<open>aead_raises\<close>.
\<close>

theorem decrypt_rejects_invalid:
  assumes "aead_sound L" and "aead_raises L"
    and "\<not> valid_blob L key blob \<or> length blob < AESGCM_IV_LEN + 16"
  shows "\<exists>e. decrypt_with_key L blob key = Inl e
           \<and> (length blob \<le> AESGCM_MAX_SIZE \<longrightarrow>
                e = (if aesgcm_new L key = None \<and> 8 \<le> length blob then InvalidTag
                     else ValueError))"
proof (cases "aesgcm_new L key")
  case (Some e)
  with assms(2) have "e = ValueError"
    unfolding aead_raises_def by blast
  with Some show ?thesis
    by (simp add: decrypt_with_key_def)
next
  case None
  let ?iv = "take AESGCM_IV_LEN blob"
  let ?ct = "drop AESGCM_IV_LEN blob"
  show ?thesis
  proof (cases "aesgcm_decrypt L key ?iv ?ct")
    case (Inl e)
    have "e = ValueError" if "length blob < 8"
    proof -
      from that have "length ?iv < 8"
        by simp
      with assms(2) have "aesgcm_decrypt L key ?iv ?ct = Inl ValueError"
        unfolding aead_raises_def by blast
      with Inl show ?thesis
        by simp
    qed
    moreover have "e = InvalidTag" if "8 \<le> length blob" and "length blob \<le> AESGCM_MAX_SIZE"
    proof -
      from that have "8 \<le> length ?iv" and "length ?iv \<le> 128" and "length ?ct \<le> AESGCM_MAX_SIZE"
        by (simp_all add: AESGCM_IV_LEN_def)
      with assms(2) Inl show ?thesis
        unfolding aead_raises_def by blast
    qed
    ultimately show ?thesis
      using None Inl by (auto simp: decrypt_with_key_def not_le)
  next
    case (Inr plaintext)
    with assms(1)
    have enc: "aesgcm_encrypt L key ?iv plaintext = Inr ?ct"
      and len: "length ?ct = length plaintext + 16"
      unfolding aead_sound_def by blast+
    from len have long: "AESGCM_IV_LEN + 16 \<le> length blob"
      by simp
    then have "length ?iv = AESGCM_IV_LEN"
      by simp
    from valid_blobI [OF None this enc] have "valid_blob L key blob"
      by simp
    with assms(3) long show ?thesis
      by simp
  qed
qed

lemma capped_tampered:
  "decrypt_with_key capped_library
     (replicate 12 7 @ [246, 247, 249] @ replicate 16 218) (replicate 32 5)
   = Inl InvalidTag"
  by (simp add: decrypt_with_key_def capped_library_def demo_library_def demo_new_def
      demo_decrypt_def demo_tag_def demo_pad_def AESGCM_IV_LEN_def Let_def
      sum_list_replicate)

theorem decrypt_rejects_invalid_witness:
  "decrypt_with_key capped_library
     (replicate 12 7 @ [246, 247, 249] @ replicate 16 218) (replicate 32 5)
   = Inl InvalidTag"
proof -
  let ?blob = "replicate 12 7 @ [246, 247, 249] @ replicate 16 218 :: bytes"
  have "\<not> valid_blob capped_library (replicate 32 5) ?blob"
    using valid_blob_decrypts [OF capped_correct, of "replicate 32 5"] capped_tampered
    by fastforce
  then have "\<not> valid_blob capped_library (replicate 32 5) ?blob
     \<or> length ?blob < AESGCM_IV_LEN + 16" ..
  from decrypt_rejects_invalid [OF capped_sound capped_raises this]
  show ?thesis
    by (simp add: AESGCM_MAX_SIZE_def capped_library_def demo_library_def demo_new_def)
qed

subsection \<open>File names\<close>

lemma sanitize_filename_Nil: "sanitize_filename [] = []"
  by (simp add: sanitize_filename_def)

lemma sanitize_filename_Cons:
  "sanitize_filename (c # cs) =
     (if isalnum c \<or> c \<in> set ''._-'' then c else CHR ''_'') # sanitize_filename cs"
  by (simp add: sanitize_filename_def)

lemma sanitize_filename_length: "length (sanitize_filename fn) = length fn"
  by (induction fn) (simp_all add: sanitize_filename_Nil sanitize_filename_Cons)

lemma sanitize_filename_nth:
  "i < length fn \<Longrightarrow>
     sanitize_filename fn ! i =
       (if isalnum (fn ! i) \<or> fn ! i \<in> set ''._-'' then fn ! i else CHR ''_'')"
proof (induction fn arbitrary: i)
  case Nil
  then show ?case by simp
next
  case (Cons c cs)
  show ?case
  proof (cases i)
    case 0
    then show ?thesis
      by (simp add: sanitize_filename_Cons)
  next
    case (Suc j)
    with Cons.prems have "j < length cs" by simp
    from Cons.IH [OF this] Suc show ?thesis
      by (simp add: sanitize_filename_Cons)
  qed
qed

text \<open>
  C7 as stated fails: a character outside the set is not removed. The name
  \<open>my report.pdf\<close> becomes \<open>my_report.pdf\<close>, not \<open>myreport.pdf\<close>.
\<close>

theorem sanitize_filename_strips_counterexample:
  "sanitize_filename ''my report.pdf'' = ''my_report.pdf''
   \<and> filter allowed_char ''my report.pdf'' = ''myreport.pdf''
   \<and> sanitize_filename ''my report.pdf'' \<noteq> filter allowed_char ''my report.pdf''"
  by code_simp

text \<open>
  C7, amended. The sanitized name has the length of the original name; at every position
  it has the original character when that is alphanumeric or one of \<open>.\<close>, \<open>_\<close>, \<open>-\<close>,
  and an underscore otherwise.
\<close>

theorem sanitize_filename_replaces:
  "length (sanitize_filename fn) = length fn
   \<and> (\<forall>i < length fn. sanitize_filename fn ! i
          = (if allowed_char (fn ! i) then fn ! i else CHR ''_''))"
  by (simp add: sanitize_filename_length sanitize_filename_nth allowed_char_def)

theorem sanitize_filename_replaces_witness:
  "length (sanitize_filename ''my report.pdf'') = 13
   \<and> sanitize_filename ''my report.pdf'' ! 2 = CHR ''_''
   \<and> sanitize_filename ''my report.pdf'' ! 3 = CHR ''r''"
proof -
  have a: "\<not> allowed_char (''my report.pdf'' ! 2)"
    by code_simp
  have b: "allowed_char (''my report.pdf'' ! 3)"
    by code_simp
  from sanitize_filename_replaces [of "''my report.pdf''"] a b show ?thesis
    by simp
qed

subsection \<open>Lookup\<close>

lemma find_stored_loop_find:
  "find_stored_loop w stored_filename ps = List.find (entry_matches w stored_filename) ps"
  by (induction ps) (auto simp: entry_matches_def split: option.splits)

lemmas lookup_defs = find_stored_path_def joined_exists_def joinpath_def fspath_def root_of_def
  path_parts_def utf8_length_def NAME_MAX_def PATH_MAX_def lookup_world_def fs_defs lower_def
  lower_char_def in_range_def startswith_def char_of_def bit_0

text \<open>
  C6 as stated fails twice. With the entries \<open>abcdef__xyz.jmn\<close> and \<open>ABC\<close> enumerated
  in this order, the name \<open>abc\<close> resolves to \<open>abcdef__xyz.jmn\<close>, a prefix match, although
  \<open>ABC\<close> matches it case-insensitively: the tests are made entry by entry, not one test
  after the other over the directory. And the name \<open>abcdef__x\<close> resolves to the same
  entry, by the prefix test alone: it is not the name of the entry, with \<open>.jmn\<close> or
  without, and it is not the part before the separator, which is \<open>abcdef\<close>. The prefix
  test is on the whole name.
\<close>

theorem find_stored_path_precedence_counterexample:
  "find_stored_path [''JuMan'', ''storage''] ''abc'' lookup_world
     = Inr (Some [''JuMan'', ''storage'', ''abcdef__xyz.jmn''])
   \<and> lower ''abcdef__xyz.jmn'' \<noteq> lower ''abc''
   \<and> is_file lookup_world [''JuMan'', ''storage'', ''ABC'']
   \<and> lower ''ABC'' = lower ''abc''
   \<and> find_stored_path [''JuMan'', ''storage''] ''abcdef__x'' lookup_world
     = Inr (Some [''JuMan'', ''storage'', ''abcdef__xyz.jmn''])
   \<and> split_dunder ''abcdef__xyz.jmn'' = Some (''abcdef'', ''xyz.jmn'')
   \<and> lower ''abcdef'' \<noteq> lower ''abcdef__x''
   \<and> lower ''abcdef__xyz.jmn'' \<noteq> lower ''abcdef__x''
   \<and> lower ''abcdef__xyz.jmn'' \<noteq> lower (''abcdef__x'' @ ''.jmn'')
   \<and> startswith ''abcdef__xyz.jmn'' ''abcdef__x''"
  by (simp add: lookup_defs)

text \<open>
  C6, amended. The lookup returns the entry that the queried name, joined to the storage
  directory as a path, names, when there is one; otherwise the entry that the queried
  name with \<open>.jmn\<close> appended names in this way, when there is one; otherwise the first
  entry of the storage directory, in enumeration order, that is a regular file and passes
  one of three tests: its name equals the queried name or the queried name plus \<open>.jmn\<close>
  up to case; its name starts with the queried name; its part before the first \<open>__\<close>
  equals the queried name up to case. It returns \<open>None\<close> when no entry passes, and
  raises when a name is too long for the file system or the storage directory cannot be
  enumerated.
\<close>

theorem find_stored_path_first_match:
  "find_stored_path storage_dir stored_filename w =
     (case joined_exists w storage_dir stored_filename of
        Inl e \<Rightarrow> Inl e
      | Inr (Some direct) \<Rightarrow> Inr (Some direct)
      | Inr None \<Rightarrow>
     (case joined_exists w storage_dir (stored_filename @ ''.jmn'') of
        Inl e \<Rightarrow> Inl e
      | Inr (Some alt) \<Rightarrow> Inr (Some alt)
      | Inr None \<Rightarrow>
     (case iterdir storage_dir w of
        Inl e \<Rightarrow> Inl e
      | Inr ps \<Rightarrow> Inr (List.find (entry_matches w stored_filename) ps))))"
  by (simp add: find_stored_path_def find_stored_loop_find split: sum.splits option.splits)

text \<open>In the directory \<open>abcdef__xyz.jmn\<close>, \<open>ABC\<close>, \<open>abcd\<close>, \<open>abcde.jmn\<close>: the names
  \<open>abcd\<close> and \<open>abcde\<close> resolve to the entry of this name and to the entry with
  \<open>.jmn\<close> appended, although the first entry starts with them; \<open>ABCDE.JMN\<close> passes the
  first test, at the last entry only; \<open>abcdef\<close> passes the second test and \<open>ABCDEF\<close>
  the third, at the first entry only; \<open>xyz\<close> passes no test.\<close>

theorem find_stored_path_first_match_witness:
  "find_stored_path [''JuMan'', ''storage''] ''abcd'' precedence_world
     = Inr (Some [''JuMan'', ''storage'', ''abcd''])
   \<and> find_stored_path [''JuMan'', ''storage''] ''abcde'' precedence_world
     = Inr (Some [''JuMan'', ''storage'', ''abcde.jmn''])
   \<and> find_stored_path [''JuMan'', ''storage''] ''ABCDE.JMN'' precedence_world
     = Inr (Some [''JuMan'', ''storage'', ''abcde.jmn''])
   \<and> find_stored_path [''JuMan'', ''storage''] ''abcdef'' precedence_world
     = Inr (Some [''JuMan'', ''storage'', ''abcdef__xyz.jmn''])
   \<and> find_stored_path [''JuMan'', ''storage''] ''ABCDEF'' precedence_world
     = Inr (Some [''JuMan'', ''storage'', ''abcdef__xyz.jmn''])
   \<and> find_stored_path [''JuMan'', ''storage''] ''xyz'' precedence_world = Inr None
   \<and> find_stored_path [''JuMan'', ''nowhere''] ''xyz'' precedence_world
     = Inl FileNotFoundError"
  by (simp add: find_stored_path_first_match entry_matches_def joined_exists_def joinpath_def
      fspath_def root_of_def path_parts_def utf8_length_def NAME_MAX_def PATH_MAX_def
      precedence_world_def fs_defs lower_def lower_char_def in_range_def startswith_def
      char_of_def bit_0)

text \<open>The entry that a joined name names need not be a blob of the storage directory: the
  empty name and \<open>.\<close> name the directory itself, \<open>..\<close> and a name that starts with a
  slash lead out of it.\<close>

lemma find_stored_path_special_names:
  "find_stored_path [''JuMan'', ''storage''] '''' lookup_world = Inr (Some [''JuMan'', ''storage''])"
  "find_stored_path [''JuMan'', ''storage''] ''.'' lookup_world = Inr (Some [''JuMan'', ''storage''])"
  "find_stored_path [''JuMan'', ''storage''] ''..'' lookup_world = Inr (Some [''JuMan''])"
  "find_stored_path [''JuMan'', ''storage''] ''../storage/ABC'' lookup_world
     = Inr (Some [''JuMan'', ''storage'', ''ABC''])"
  "find_stored_path [''JuMan'', ''storage''] ''/JuMan'' lookup_world = Inr (Some [''JuMan''])"
  "find_stored_path [''JuMan'', ''storage''] ''ABC/../ABC'' lookup_world = Inr None"
  "find_stored_path [''JuMan'', ''storage''] ''ABC/'' lookup_world
     = Inr (Some [''JuMan'', ''storage'', ''ABC''])"
  by (simp_all add: lookup_defs)

text \<open>An ordinary name: one component, not \<open>.\<close> or \<open>..\<close>. Joined to a directory that
  the walk reaches, it names the entry of this name in the directory.\<close>

lemma split_slash_plain: "CHR ''/'' \<notin> set s \<Longrightarrow> split_slash s = [s]"
  by (induction s) auto

lemma path_parts_plain:
  "CHR ''/'' \<notin> set s \<Longrightarrow> s \<noteq> [] \<Longrightarrow> s \<noteq> ''.'' \<Longrightarrow> path_parts s = [s]"
  by (simp add: path_parts_def split_slash_plain)

lemma walk_append:
  "walk w cur (xs @ ys) =
     (case walk w cur xs of
        Inl e \<Rightarrow> Inl e
      | Inr None \<Rightarrow> Inr None
      | Inr (Some q) \<Rightarrow> walk w q ys)"
  by (induction xs arbitrary: cur) (auto split: option.splits node.splits)

lemma joined_exists_plain:
  assumes "CHR ''/'' \<notin> set s" and "s \<noteq> []" and "s \<noteq> ''.''" and "s \<noteq> ''..''"
    and "walk w [] d = Inr (Some d)" and "stat w d = Some Dir"
  shows "joined_exists w d s =
     (if CHR 0x00 \<in> set (''/'' @ join_slash (d @ [s])) then Inr None
      else if PATH_MAX \<le> utf8_length (''/'' @ join_slash (d @ [s])) then Inl OSError
      else if NAME_MAX < utf8_length s then Inl OSError
      else if path_exists w (d @ [s]) then Inr (Some (d @ [s]))
      else Inr None)"
proof -
  from assms(1,2) have "\<not> startswith s ''/''"
    by (cases s) (auto simp: startswith_def)
  with assms show ?thesis
    by (simp add: joined_exists_def joinpath_def fspath_def path_parts_plain walk_append)
qed

lemma lookup_world_storage:
  "walk lookup_world [] [''JuMan'', ''storage''] = Inr (Some [''JuMan'', ''storage''])"
  "stat lookup_world [''JuMan'', ''storage''] = Some Dir"
  by (simp_all add: lookup_world_def stat_def NAME_MAX_def utf8_length_def)

lemma find_stored_path_long_name:
  "find_stored_path [''JuMan'', ''storage''] (replicate 252 CHR ''a'') lookup_world = Inl OSError"
proof -
  let ?s = "replicate 252 CHR ''a''"
  have diff: "x \<noteq> y" if "length x \<noteq> length y" for x y :: string
    using that by auto
  have ne: "?s \<noteq> []" "?s \<noteq> ''.''" "?s \<noteq> ''..''"
    "?s @ ''.jmn'' \<noteq> []" "?s @ ''.jmn'' \<noteq> ''.''" "?s @ ''.jmn'' \<noteq> ''..''"
    "?s \<noteq> ''abcdef__xyz.jmn''" "?s \<noteq> ''ABC''"
    by (rule diff, simp)+
  have plain: "CHR ''/'' \<notin> set ?s" "CHR ''/'' \<notin> set (?s @ ''.jmn'')"
    by simp_all
  have a: "joined_exists lookup_world [''JuMan'', ''storage''] ?s = Inr None"
    unfolding joined_exists_plain [OF plain(1) ne(1-3) lookup_world_storage]
    using ne(7,8)
    by (simp add: utf8_length_def NAME_MAX_def PATH_MAX_def sum_list_replicate
        lookup_world_def stat_def path_exists_def)
  have b: "joined_exists lookup_world [''JuMan'', ''storage''] (?s @ ''.jmn'') = Inl OSError"
    unfolding joined_exists_plain [OF plain(2) ne(4-6) lookup_world_storage]
    by (simp add: utf8_length_def NAME_MAX_def PATH_MAX_def sum_list_replicate)
  show ?thesis
    by (simp only: find_stored_path_def a b sum.case option.case)
qed

subsection \<open>Delete\<close>

text \<open>
  C10. \<open>delete_stored\<close> returns the same result and leaves the same world for any two
  passwords: the password is never used.
\<close>

theorem delete_ignores_password:
  "delete_stored stored_filename p1 data_dir w = delete_stored stored_filename p2 data_dir w"
  by (simp add: delete_stored_def)

text \<open>The empty name resolves to the storage directory, which cannot be erased:
  \<open>delete_stored\<close> returns \<open>False\<close> and changes nothing.\<close>

lemma delete_stored_empty_name:
  "delete_stored '''' pw [''JuMan''] lookup_world = (Inr False, lookup_world)"
  by (simp add: delete_stored_def secure_overwrite_and_delete_def const_defs lookup_defs)

subsection \<open>File system operations\<close>

lemma stat_token_bytes: "token_bytes n w = (bs, w') \<Longrightarrow> stat w' = stat w"
  by (auto simp: token_bytes_def stat_def fun_eq_iff)

lemma stat_encrypt_with_key: "encrypt_with_key L x k w = (r, w') \<Longrightarrow> stat w' = stat w"
  by (auto simp: encrypt_with_key_def token_bytes_def stat_def fun_eq_iff
      split: option.splits sum.splits)

lemma write_bytes_Inr:
  assumes "write_bytes p b w = (Inr u, w')"
  shows "stat w' = (stat w)(p \<mapsto> File b)"
    and "w' = w\<lparr>files := AList.update p (File b) (files w)\<rparr>"
  using assms
  by (auto simp: write_bytes_def stat_def fun_eq_iff update_conv'
      split: option.splits node.splits if_splits)

lemma write_bytes_Inl: "write_bytes p b w = (Inl e, w') \<Longrightarrow> w' = w"
  by (auto simp: write_bytes_def split: option.splits node.splits)

lemma mkdir_entries_keeps:
  "mkdir_entries p fs = Inr fs' \<Longrightarrow> map_of fs q = Some n \<Longrightarrow> map_of fs' q = Some n"
proof (induction p fs arbitrary: fs' rule: mkdir_entries.induct)
  case (1 p fs)
  show ?case
  proof (cases "p = []")
    case True
    with "1.prems" show ?thesis by (simp add: mkdir_entries.simps)
  next
    case False
    show ?thesis
    proof (cases "map_of fs p")
      case None
      with False "1.prems"(1) obtain fs'' where rec: "mkdir_entries (butlast p) fs = Inr fs''"
        and fs': "fs' = fs'' @ [(p, Dir)]"
        by (auto simp: mkdir_entries.simps [of p fs] split: sum.splits)
      from "1.IH" [OF False None rec "1.prems"(2)] fs' show ?thesis
        by (simp add: map_add_def)
    next
      case (Some a)
      with False "1.prems" show ?thesis
        by (cases a) (simp_all add: mkdir_entries.simps [of p fs])
    qed
  qed
qed

lemma mkdir_entries_new:
  "mkdir_entries p fs = Inr fs' \<Longrightarrow> map_of fs' q = Some n \<Longrightarrow> map_of fs q = Some n \<or> n = Dir"
proof (induction p fs arbitrary: fs' rule: mkdir_entries.induct)
  case (1 p fs)
  show ?case
  proof (cases "p = []")
    case True
    with "1.prems" show ?thesis by (simp add: mkdir_entries.simps)
  next
    case False
    show ?thesis
    proof (cases "map_of fs p")
      case None
      with False "1.prems"(1) obtain fs'' where rec: "mkdir_entries (butlast p) fs = Inr fs''"
        and fs': "fs' = fs'' @ [(p, Dir)]"
        by (auto simp: mkdir_entries.simps [of p fs] split: sum.splits)
      from "1.prems"(2) fs' have "map_of fs'' q = Some n \<or> n = Dir"
        by (auto simp: map_add_def split: option.splits if_splits)
      with "1.IH" [OF False None rec] show ?thesis
        by blast
    next
      case (Some a)
      with False "1.prems" show ?thesis
        by (cases a) (simp_all add: mkdir_entries.simps [of p fs])
    qed
  qed
qed

lemma mkdir_entries_made:
  assumes "mkdir_entries p fs = Inr fs'" and "p \<noteq> []"
  shows "map_of fs' p = Some Dir"
proof (cases "map_of fs p")
  case None
  with assms obtain fs'' where rec: "mkdir_entries (butlast p) fs = Inr fs''"
    and fs': "fs' = fs'' @ [(p, Dir)]"
    by (auto simp: mkdir_entries.simps [of p fs] split: sum.splits)
  from mkdir_entries_new [OF rec, of p] None have "map_of fs'' p = None \<or> map_of fs'' p = Some Dir"
    by (cases "map_of fs'' p") auto
  with fs' show ?thesis
    by (auto simp: map_add_def)
next
  case (Some a)
  with assms show ?thesis
    by (cases a) (simp_all add: mkdir_entries.simps [of p fs])
qed

lemma mkdir_parents_Inr:
  assumes "mkdir_parents p w = (Inr u, w')"
  shows "stat w' p = Some Dir"
    and "stat w q = Some n \<Longrightarrow> stat w' q = Some n"
    and "stat w' q = Some (File b) \<Longrightarrow> stat w q = Some (File b)"
    and "residue w' = residue w" and "entropy w' = entropy w" and "uuids w' = uuids w"
  using assms mkdir_entries_made [of p "files w"] mkdir_entries_keeps [of p "files w" _ q n]
    mkdir_entries_new [of p "files w" _ q "File b"]
  by (auto simp: mkdir_parents_def stat_def split: sum.splits if_splits)

lemma mkdir_parents_Inl: "mkdir_parents p w = (Inl e, w') \<Longrightarrow> w' = w"
  by (auto simp: mkdir_parents_def split: sum.splits)

lemma mkdir_parents_existing: "stat w p = Some Dir \<Longrightarrow> mkdir_parents p w = (Inr (), w)"
  by (auto simp: mkdir_parents_def stat_def mkdir_entries.simps [of p] split: if_splits)

subsection \<open>Initialization\<close>

lemma path_exists_stat: "path_exists w p = (stat w p \<noteq> None)"
  by (simp add: path_exists_def split: option.splits)

text \<open>What holds after a call of init_data_dir that returned.\<close>

lemma init_data_dir_established:
  assumes "init_data_dir L d p w = (Inr u, w1)"
  shows "stat w1 d = Some Dir \<and> stat w1 (d @ [STORAGE_DIRNAME]) = Some Dir
         \<and> path_exists w1 (d @ [CONFIG_NAME]) \<and> path_exists w1 (d @ [MASTER_KEY_ENC])"
proof -
  from assms obtain wa where a: "mkdir_parents d w = (Inr (), wa)"
    by (auto simp: init_data_dir_def split: prod.splits sum.splits)
  with assms obtain wb where b: "mkdir_parents (d @ [STORAGE_DIRNAME]) wa = (Inr (), wb)"
    by (auto simp: init_data_dir_def Let_def split: prod.splits sum.splits)
  from a have da: "stat wa d = Some Dir" by (rule mkdir_parents_Inr)
  with b have db: "stat wb d = Some Dir" by (rule mkdir_parents_Inr(2))
  from b have sb: "stat wb (d @ [STORAGE_DIRNAME]) = Some Dir" by (rule mkdir_parents_Inr)
  show ?thesis
  proof (cases "path_exists wb (d @ [CONFIG_NAME]) \<and> path_exists wb (d @ [MASTER_KEY_ENC])")
    case True
    with assms a b have "w1 = wb"
      by (simp add: init_data_dir_def Let_def)
    with True db sb show ?thesis by simp
  next
    case False
    with assms a b da db sb show ?thesis
      by (auto simp: init_data_dir_def Let_def path_exists_stat const_defs
          dest!: stat_token_bytes stat_encrypt_with_key write_bytes_Inr(1)
          split: prod.splits sum.splits option.splits)
  qed
qed

lemma demo_init:
  "init_data_dir demo_library [''home'', ''JuMan''] (Some ''pw'') demo_home = (Inr (), demo_vault)"
  by (simp add: init_data_dir_def demo_home_def demo_vault_def fs_defs const_defs demo_defs
      mkdir_entries.simps encrypt_with_key_def derive_key_def str_bytes_def Let_def
      map_replicate_const sum_list_replicate char_of_def bit_0)

lemma load_master_key_cong:
  assumes "stat w' (d @ [CONFIG_NAME]) = stat w (d @ [CONFIG_NAME])"
    and "stat w' (d @ [MASTER_KEY_ENC]) = stat w (d @ [MASTER_KEY_ENC])"
  shows "load_master_key L d pw w' = load_master_key L d pw w"
  unfolding load_master_key_def Let_def path_exists_def read_bytes_def assms ..

lemma mkdir_parents_any:
  assumes "mkdir_parents p w = (r, w')"
  shows "stat w q = Some n \<Longrightarrow> stat w' q = Some n"
    and "stat w' q = Some (File b) \<Longrightarrow> stat w q = Some (File b)"
    and "residue w' = residue w" and "entropy w' = entropy w" and "uuids w' = uuids w"
proof -
  show "stat w q = Some n \<Longrightarrow> stat w' q = Some n"
    using assms mkdir_parents_Inr(2) [of p w _ w' q n] mkdir_parents_Inl [of p w _ w']
    by (cases r) auto
  show "stat w' q = Some (File b) \<Longrightarrow> stat w q = Some (File b)"
    using assms mkdir_parents_Inr(3) [of p w _ w' q b] mkdir_parents_Inl [of p w _ w']
    by (cases r) auto
  show "residue w' = residue w" and "entropy w' = entropy w" and "uuids w' = uuids w"
    using assms mkdir_parents_Inr(4-6) [of p w _ w'] mkdir_parents_Inl [of p w _ w']
    by (cases r; auto)+
qed

lemma mkdir_parents_missing:
  assumes "stat w d = Some Dir" and "stat w (d @ [x]) = None"
  shows "mkdir_parents (d @ [x]) w = (Inr (), w\<lparr>files := files w @ [(d @ [x], Dir)]\<rparr>)"
proof -
  from assms(1) have "mkdir_entries d (files w) = Inr (files w)"
    by (subst mkdir_entries.simps) (auto simp: stat_def split: if_splits)
  with assms(2) have "mkdir_entries (d @ [x]) (files w) = Inr (files w @ [(d @ [x], Dir)])"
    by (subst mkdir_entries.simps) (simp add: stat_def)
  then show ?thesis
    by (simp add: mkdir_parents_def)
qed

lemma mkdir_parents_file:
  assumes "stat w p = Some (File b)"
  shows "mkdir_parents p w = (Inl FileExistsError, w)"
proof -
  from assms have "mkdir_entries p (files w) = Inl FileExistsError"
    by (subst mkdir_entries.simps) (auto simp: stat_def split: if_splits)
  then show ?thesis
    by (simp add: mkdir_parents_def)
qed

text \<open>What init_data_dir does to a vault that holds config.json and master.key.enc: it
  goes through the two mkdir calls and stops at the test.\<close>

lemma init_data_dir_present:
  assumes "path_exists w (d @ [CONFIG_NAME])" and "path_exists w (d @ [MASTER_KEY_ENC])"
    and "init_data_dir L d password w = (r, w')"
  obtains r1 w1 r2 where "mkdir_parents d w = (r1, w1)"
    and "mkdir_parents (d @ [STORAGE_DIRNAME]) w1 = (r2, w')"
    and "r = (case r1 of Inl e \<Rightarrow> Inl e | Inr u \<Rightarrow> r2)"
  | e where "mkdir_parents d w = (Inl e, w')" and "r = Inl e"
proof -
  obtain r1 w1 where a: "mkdir_parents d w = (r1, w1)"
    by (cases "mkdir_parents d w")
  show ?thesis
  proof (cases r1)
    case (Inl e)
    with a assms(3) have "r = Inl e" "w' = w1"
      by (simp_all add: init_data_dir_def)
    with a Inl show ?thesis
      by (auto intro: that(2))
  next
    case (Inr u)
    obtain r2 w2 where b: "mkdir_parents (d @ [STORAGE_DIRNAME]) w1 = (r2, w2)"
      by (cases "mkdir_parents (d @ [STORAGE_DIRNAME]) w1")
    from assms(1,2) have "path_exists w2 (d @ [CONFIG_NAME])" "path_exists w2 (d @ [MASTER_KEY_ENC])"
      using mkdir_parents_any(1) [OF a] mkdir_parents_any(1) [OF b]
      by (auto simp: path_exists_stat)
    with a b Inr assms(3) have "r = r2 \<and> w' = w2"
      by (cases r2) (simp_all add: init_data_dir_def Let_def)
    with a b Inr show ?thesis
      by (auto intro: that(1))
  qed
qed

lemma bare_vault_present:
  "path_exists bare_vault [''home'', ''JuMan'', ''config.json'']"
  "path_exists bare_vault [''home'', ''JuMan'', ''master.key.enc'']"
  "stat bare_vault [''home'', ''JuMan'', ''storage''] = None"
  by (simp_all add: bare_vault_def stat_def path_exists_def)

text \<open>
  C4 as stated fails: the two \<open>mkdir\<close> calls come before the test. On a vault that holds
  \<open>config.json\<close> and \<open>master.key.enc\<close> and no \<open>storage\<close> directory, the call is not a
  no-op: it returns with the directory created.
\<close>

theorem init_data_dir_twice_counterexample:
  "path_exists bare_vault [''home'', ''JuMan'', ''config.json'']
   \<and> path_exists bare_vault [''home'', ''JuMan'', ''master.key.enc'']
   \<and> stat bare_vault [''home'', ''JuMan'', ''storage''] = None
   \<and> init_data_dir demo_library [''home'', ''JuMan''] (Some ''pw'') bare_vault
       = (Inr (), bare_vault\<lparr>files := files bare_vault
                                 @ [([''home'', ''JuMan'', ''storage''], Dir)]\<rparr>)
   \<and> stat (snd (init_data_dir demo_library [''home'', ''JuMan''] (Some ''pw'') bare_vault))
        [''home'', ''JuMan'', ''storage''] = Some Dir"
  by (simp add: bare_vault_present)
    (simp add: init_data_dir_def bare_vault_def fs_defs const_defs mkdir_entries.simps Let_def)

text \<open>
  C4, amended. A call of \<open>init_data_dir\<close> on a vault that holds \<open>config.json\<close> and
  \<open>master.key.enc\<close>, with any password or none, writes no file: the wrapped key, the
  config and every other file are as before, every entry is kept, no random byte is
  drawn, and \<open>load_master_key\<close> gives with every password what it gave before. When
  the \<open>storage\<close> directory exists the call returns and changes nothing; when it is
  missing the call returns with the directory created; when a regular file is in its
  place the call raises \<open>FileExistsError\<close> and changes nothing.
\<close>

theorem init_data_dir_initialized:
  assumes "path_exists w (data_dir @ [CONFIG_NAME])"
    and "path_exists w (data_dir @ [MASTER_KEY_ENC])"
    and "init_data_dir L data_dir password w = (r, w')"
  shows "stat w' (data_dir @ [MASTER_KEY_ENC]) = stat w (data_dir @ [MASTER_KEY_ENC])
         \<and> stat w' (data_dir @ [CONFIG_NAME]) = stat w (data_dir @ [CONFIG_NAME])
         \<and> (\<forall>q b. (stat w' q = Some (File b)) = (stat w q = Some (File b)))
         \<and> (\<forall>q n. stat w q = Some n \<longrightarrow> stat w' q = Some n)
         \<and> residue w' = residue w \<and> entropy w' = entropy w \<and> uuids w' = uuids w
         \<and> (\<forall>pw. load_master_key L data_dir pw w' = load_master_key L data_dir pw w)
         \<and> (stat w data_dir = Some Dir \<longrightarrow>
              (case stat w (data_dir @ [STORAGE_DIRNAME]) of
                 Some Dir \<Rightarrow> r = Inr () \<and> w' = w
               | None \<Rightarrow> r = Inr ()
                   \<and> w' = w\<lparr>files := files w @ [(data_dir @ [STORAGE_DIRNAME], Dir)]\<rparr>
               | Some (File b) \<Rightarrow> r = Inl FileExistsError \<and> w' = w))"
proof -
  have keep: "stat w q = Some n \<Longrightarrow> stat w' q = Some n"
    and only: "stat w' q = Some (File b) \<Longrightarrow> stat w q = Some (File b)"
    and same: "residue w' = residue w" "entropy w' = entropy w" "uuids w' = uuids w" for q n b
    using assms
    by (cases rule: init_data_dir_present;
        auto dest: mkdir_parents_any(1) mkdir_parents_any(2)
             simp: mkdir_parents_any(3-5))+
  from assms(1,2) keep
  have k: "stat w' (data_dir @ [MASTER_KEY_ENC]) = stat w (data_dir @ [MASTER_KEY_ENC])"
    and c: "stat w' (data_dir @ [CONFIG_NAME]) = stat w (data_dir @ [CONFIG_NAME])"
    by (auto simp: path_exists_stat)
  from c k have l: "load_master_key L data_dir pw w' = load_master_key L data_dir pw w" for pw
    by (rule load_master_key_cong)
  have files: "(stat w' q = Some (File b)) = (stat w q = Some (File b))" for q b
    using keep only by blast
  have run: "(case stat w (data_dir @ [STORAGE_DIRNAME]) of
                 Some Dir \<Rightarrow> r = Inr () \<and> w' = w
               | None \<Rightarrow> r = Inr ()
                   \<and> w' = w\<lparr>files := files w @ [(data_dir @ [STORAGE_DIRNAME], Dir)]\<rparr>
               | Some (File b) \<Rightarrow> r = Inl FileExistsError \<and> w' = w)"
    if d: "stat w data_dir = Some Dir"
  proof (cases "stat w (data_dir @ [STORAGE_DIRNAME])")
    case None
    let ?w2 = "w\<lparr>files := files w @ [(data_dir @ [STORAGE_DIRNAME], Dir)]\<rparr>"
    have "stat ?w2 q = Some n" if "stat w q = Some n" for q n
      using mkdir_parents_any(1) [OF mkdir_parents_missing [OF d None] that] .
    with assms(1,2) have "path_exists ?w2 (data_dir @ [CONFIG_NAME])"
      "path_exists ?w2 (data_dir @ [MASTER_KEY_ENC])"
      by (auto simp: path_exists_stat)
    with assms(3) None show ?thesis
      by (simp add: init_data_dir_def Let_def mkdir_parents_existing [OF d]
          mkdir_parents_missing [OF d None])
  next
    case (Some n)
    show ?thesis
    proof (cases n)
      case Dir
      with Some assms show ?thesis
        by (simp add: init_data_dir_def Let_def mkdir_parents_existing [OF d]
            mkdir_parents_existing [of w "data_dir @ [STORAGE_DIRNAME]"])
    next
      case (File b)
      with Some assms show ?thesis
        by (simp add: init_data_dir_def Let_def mkdir_parents_existing [OF d]
            mkdir_parents_file [of w "data_dir @ [STORAGE_DIRNAME]" b])
    qed
  qed
  from k c files keep same l run show ?thesis
    by simp
qed

lemma demo_load:
  "load_master_key demo_library [''home'', ''JuMan''] (Some ''pw'') demo_vault
     = Inr (replicate 32 7)"
  by (simp add: load_master_key_def demo_vault_def fs_defs const_defs demo_defs
      decrypt_with_key_def derive_key_def str_bytes_def Let_def
      map_replicate_const sum_list_replicate char_of_def bit_0 o_def)

lemma demo_vault_present:
  "path_exists demo_vault ([''home'', ''JuMan''] @ [CONFIG_NAME])"
  "path_exists demo_vault ([''home'', ''JuMan''] @ [MASTER_KEY_ENC])"
  "stat demo_vault [''home'', ''JuMan''] = Some Dir"
  "stat demo_vault [''home'', ''JuMan'', STORAGE_DIRNAME] = Some Dir"
  by (simp_all add: demo_vault_def stat_def path_exists_def const_defs)

theorem init_data_dir_initialized_witness:
  "fst (init_data_dir demo_library [''home'', ''JuMan''] (Some ''other'') demo_vault) = Inr ()
   \<and> snd (init_data_dir demo_library [''home'', ''JuMan''] (Some ''other'') demo_vault)
       = demo_vault
   \<and> load_master_key demo_library [''home'', ''JuMan''] (Some ''pw'')
        (snd (init_data_dir demo_library [''home'', ''JuMan''] (Some ''other'') demo_vault))
       = Inr (replicate 32 7)"
  using init_data_dir_initialized [OF demo_vault_present(1,2) prod.collapse [symmetric],
      of demo_library "Some ''other''"]
  by (simp add: demo_vault_present demo_load)

subsection \<open>What the operations leave alone\<close>

lemma mkdir_entries_prefix:
  "mkdir_entries p fs = Inr fs' \<Longrightarrow> map_of fs' q = Some n \<Longrightarrow>
     map_of fs q = Some n \<or> (n = Dir \<and> take (length q) p = q)"
proof (induction p fs arbitrary: fs' rule: mkdir_entries.induct)
  case (1 p fs)
  show ?case
  proof (cases "p = []")
    case True
    with "1.prems" show ?thesis by (simp add: mkdir_entries.simps)
  next
    case False
    show ?thesis
    proof (cases "map_of fs p")
      case None
      with False "1.prems"(1) obtain fs'' where rec: "mkdir_entries (butlast p) fs = Inr fs''"
        and fs': "fs' = fs'' @ [(p, Dir)]"
        by (auto simp: mkdir_entries.simps [of p fs] split: sum.splits)
      from "1.prems"(2) fs' have "map_of fs'' q = Some n \<or> (n = Dir \<and> q = p)"
        by (auto simp: map_add_def split: option.splits if_splits)
      then show ?thesis
      proof
        assume "map_of fs'' q = Some n"
        from "1.IH" [OF False None rec this]
        show ?thesis
        proof
          assume "n = Dir \<and> take (length q) (butlast p) = q"
          then have "n = Dir" and t: "take (length q) (butlast p) = q" by simp_all
          from arg_cong [OF t, of length] have "length q \<le> length (butlast p)"
            by simp
          with t have "take (length q) p = q"
            by (simp add: butlast_conv_take min_absorb1)
          with \<open>n = Dir\<close> show ?thesis by simp
        qed simp
      qed simp
    next
      case (Some a)
      with False "1.prems" show ?thesis
        by (cases a) (simp_all add: mkdir_entries.simps [of p fs])
    qed
  qed
qed

lemma stat_mkdir_parents_other:
  assumes "mkdir_parents p w = (r, w')" and "take (length q) p \<noteq> q"
  shows "stat w' q = stat w q"
proof (cases r)
  case (Inl e)
  with assms show ?thesis by (auto dest: mkdir_parents_Inl)
next
  case (Inr u)
  with assms(1) obtain fs' where m: "mkdir_entries p (files w) = Inr fs'" and w': "files w' = fs'"
    by (auto simp: mkdir_parents_def split: sum.splits)
  from assms(2) have "q \<noteq> []" by auto
  show ?thesis
  proof (cases "map_of (files w) q")
    case None
    with mkdir_entries_prefix [OF m, of q] assms(2) have "map_of fs' q = None"
      by (cases "map_of fs' q") auto
    with None w' \<open>q \<noteq> []\<close> show ?thesis by (simp add: stat_def)
  next
    case (Some n)
    with mkdir_entries_keeps [OF m] w' \<open>q \<noteq> []\<close> show ?thesis by (simp add: stat_def)
  qed
qed

lemma write_at_frame:
  "q \<noteq> p \<Longrightarrow> stat (write_at p pos chunk w) q = stat w q"
  "residue (write_at p pos chunk w) = residue w"
  "uuids (write_at p pos chunk w) = uuids w"
  "entropy (write_at p pos chunk w) = entropy w"
  by (auto simp: write_at_def stat_def update_conv' split: option.splits node.splits)

lemma overwrite_from_frame:
  "(q \<noteq> p \<longrightarrow> stat (overwrite_from p pos remaining w) q = stat w q)
   \<and> residue (overwrite_from p pos remaining w) = residue w
   \<and> uuids (overwrite_from p pos remaining w) = uuids w"
proof (induction p pos remaining w rule: overwrite_from.induct)
  case (1 p pos remaining w)
  show ?case
  proof (cases "remaining > 0")
    case True
    obtain chunk w1 where tb: "token_bytes (min 8192 remaining) w = (chunk, w1)"
      by (cases "token_bytes (min 8192 remaining) w")
    from "1.IH" [OF True tb [symmetric]] tb True show ?thesis
      by (auto simp: overwrite_from.simps [of p pos remaining w] write_at_frame stat_token_bytes
          token_bytes_def)
  next
    case False
    then show ?thesis by (simp add: overwrite_from.simps [of p pos 0 w])
  qed
qed

lemma overwrite_passes_frame:
  "(q \<noteq> p \<longrightarrow> stat (overwrite_passes p n passes w) q = stat w q)
   \<and> residue (overwrite_passes p n passes w) = residue w
   \<and> uuids (overwrite_passes p n passes w) = uuids w"
  by (induction passes arbitrary: w) (simp_all add: overwrite_from_frame)

lemma unlink_frame:
  assumes "unlink p w = (r, w')" and "q \<noteq> p"
  shows "stat w' q = stat w q"
  using assms by (auto simp: unlink_def stat_def delete_conv' split: option.splits node.splits)

lemma secure_overwrite_and_delete_frame:
  assumes "secure_overwrite_and_delete p passes w = (r, w')" and "q \<noteq> p"
  shows "stat w' q = stat w q"
  using assms overwrite_passes_frame [of q p]
  by (auto simp: secure_overwrite_and_delete_def Let_def dest!: unlink_frame [where q = q]
      split: if_splits option.splits node.splits prod.splits)

subsection \<open>Store\<close>

lemma load_master_key_mkdir_storage:
  assumes "mkdir_parents (d @ [STORAGE_DIRNAME]) w = (r, w1)"
  shows "load_master_key L d pw w1 = load_master_key L d pw w"
  by (rule load_master_key_cong; rule stat_mkdir_parents_other [OF assms])
    (simp_all add: const_defs)

text \<open>The steps of a run of store_encrypted that got as far as the blob file.\<close>

lemma store_encrypted_steps:
  assumes "mkdir_parents (data_dir @ [STORAGE_DIRNAME]) w = (Inr u, w1)"
    and "load_master_key L data_dir (Some password) w1 = Inr mk"
    and "aesgcm_new L mk = None"
    and "read_bytes w1 input_path = Inr data0"
  shows "store_encrypted L input_path password data_dir w =
     (let out_name = blob_name w input_path;
          out_path = data_dir @ [STORAGE_DIRNAME, out_name];
          iv = map (entropy w) [0..<AESGCM_IV_LEN];
          w3 = w1\<lparr>uuids := (\<lambda>i. uuids w (Suc i)), entropy := (\<lambda>i. entropy w (i + AESGCM_IV_LEN))\<rparr>
      in
      (case write_bytes out_path iv w3 of
         (Inl e, w4) \<Rightarrow> (Inl e, w4)
       | (Inr u4, w4) \<Rightarrow>
      (case read_bytes w4 input_path of
         Inl e \<Rightarrow> (Inl e, w4)
       | Inr data \<Rightarrow>
      (case aesgcm_encrypt L mk iv data of
         Inl e \<Rightarrow> (Inl e, w4)
       | Inr ct \<Rightarrow>
      (case write_bytes out_path (iv @ ct) w4 of
         (Inl e, w5) \<Rightarrow> (Inl e, w5)
       | (Inr u5, w5) \<Rightarrow>
      (case secure_overwrite_and_delete input_path 1 w5 of
         (Inr u6, w6) \<Rightarrow> (Inr out_name, w6)
       | (Inl e, w6) \<Rightarrow>
           (case unlink input_path w6 of (r, w7) \<Rightarrow> (Inr out_name, w7))))))))"
proof -
  from assms(1) have "uuids w1 = uuids w" "entropy w1 = entropy w"
    by (rule mkdir_parents_Inr)+
  moreover from assms(4) have "read_bytes (w1\<lparr>uuids := a, entropy := b\<rparr>) input_path = Inr data0" for a b
    by (simp add: read_bytes_def stat_def split: if_splits)
  ultimately show ?thesis
    using assms
    by (simp add: store_encrypted_def Let_def blob_name_def uuid4_def token_bytes_def
        split: prod.splits sum.splits)
qed

lemma write_bytes_again:
  assumes "write_bytes p b w = (Inr u, w')"
  shows "write_bytes p b' w' = (Inr (), w'\<lparr>files := AList.update p (File b') (files w')\<rparr>)"
proof -
  from assms have p: "p \<noteq> []" and d: "stat w (butlast p) = Some Dir"
    by (auto simp: write_bytes_def stat_def split: option.splits node.splits if_splits)
  from p have "butlast p \<noteq> p"
    by (metis length_butlast diff_less length_greater_0_conv less_irrefl zero_less_one)
  with write_bytes_Inr(1) [OF assms] d
  have "stat w' p = Some (File b)" and "stat w' (butlast p) = Some Dir"
    by simp_all
  then show ?thesis
    by (simp add: write_bytes_def)
qed

text \<open>The end of a run of store_encrypted that has written the nonce to the blob file.\<close>

lemma store_encrypted_blob_stage:
  assumes "mkdir_parents (data_dir @ [STORAGE_DIRNAME]) w = (Inr u, w1)"
    and "load_master_key L data_dir (Some password) w1 = Inr mk"
    and "aesgcm_new L mk = None"
    and "read_bytes w1 input_path = Inr data0"
    and "out_path = data_dir @ [STORAGE_DIRNAME, blob_name w input_path]"
    and "iv = map (entropy w) [0..<AESGCM_IV_LEN]"
    and "write_bytes out_path iv
           (w1\<lparr>uuids := (\<lambda>i. uuids w (Suc i)),
               entropy := (\<lambda>i. entropy w (i + AESGCM_IV_LEN))\<rparr>) = (Inr u4, w4)"
    and "store_encrypted L input_path password data_dir w = (r, w')"
    and "data = (if input_path = out_path then iv else data0)"
  shows "case aesgcm_encrypt L mk iv data of
           Inl e \<Rightarrow> r = Inl e \<and> w' = w4
         | Inr ct \<Rightarrow> r = Inr (blob_name w input_path)
              \<and> (\<forall>q. q \<noteq> input_path \<longrightarrow>
                    stat w' q = (if q = out_path then Some (File (iv @ ct)) else stat w1 q))"
proof -
  let ?w3 = "w1\<lparr>uuids := (\<lambda>i. uuids w (Suc i)), entropy := (\<lambda>i. entropy w (i + AESGCM_IV_LEN))\<rparr>"
  have s3: "stat ?w3 = stat w1"
    by (simp add: stat_def fun_eq_iff)
  from write_bytes_Inr(1) [OF assms(7)] s3 have s4: "stat w4 = (stat w1)(out_path \<mapsto> File iv)"
    by simp
  from assms(4) assms(9) have rd: "read_bytes w4 input_path = Inr data"
    by (auto simp: read_bytes_def s4 split: option.splits node.splits)
  note steps = store_encrypted_steps [OF assms(1-4), unfolded Let_def,
      folded assms(5) assms(6), unfolded assms(7) assms(8), simplified, unfolded rd, simplified]
  show ?thesis
  proof (cases "aesgcm_encrypt L mk iv data")
    case (Inl e)
    with steps rd show ?thesis
      by auto
  next
    case (Inr ct)
    let ?w5 = "w4\<lparr>files := AList.update out_path (File (iv @ ct)) (files w4)\<rparr>"
    have w5: "write_bytes out_path (iv @ ct) w4 = (Inr (), ?w5)"
      by (rule write_bytes_again [OF assms(7)])
    from write_bytes_Inr(1) [OF w5] s4
    have s5: "stat ?w5 = (stat w1)(out_path \<mapsto> File (iv @ ct))"
      by simp
    obtain r6 w6 where so: "secure_overwrite_and_delete input_path 1 ?w5 = (r6, w6)"
      by (cases "secure_overwrite_and_delete input_path 1 ?w5")
    obtain r7 w7 where ul: "unlink input_path w6 = (r7, w7)"
      by (cases "unlink input_path w6")
    from steps Inr w5 so ul have res: "r = Inr (blob_name w input_path)"
      and w': "w' = (case r6 of Inr u6 \<Rightarrow> w6 | Inl e \<Rightarrow> w7)"
      by (auto split: sum.splits)
    have "stat w' q = stat ?w5 q" if "q \<noteq> input_path" for q
      using that w' secure_overwrite_and_delete_frame [OF so that] unlink_frame [OF ul that]
      by (cases r6) simp_all
    with res rd Inr s5 show ?thesis
      by auto
  qed
qed

text \<open>A run of store_encrypted either fails before the blob file is opened, leaving the
  files as the directory creation left them, or it reaches the blob file.\<close>

lemma store_encrypted_cases:
  assumes "store_encrypted L input_path password data_dir w = (r, w')"
    and "mkdir_parents (data_dir @ [STORAGE_DIRNAME]) w = (r1, w1)"
  obtains (early) e where "r = Inl e" and "files w' = files w1"
  | (blob) u mk data0 u4 w4 where "r1 = Inr u"
      and "load_master_key L data_dir (Some password) w1 = Inr mk"
      and "aesgcm_new L mk = None"
      and "read_bytes w1 input_path = Inr data0"
      and "write_bytes (data_dir @ [STORAGE_DIRNAME, blob_name w input_path])
             (map (entropy w) [0..<AESGCM_IV_LEN])
             (w1\<lparr>uuids := (\<lambda>i. uuids w (Suc i)),
                 entropy := (\<lambda>i. entropy w (i + AESGCM_IV_LEN))\<rparr>) = (Inr u4, w4)"
proof (cases r1)
  case (Inl e)
  with assms have "r = Inl e" and "w' = w1"
    by (auto simp: store_encrypted_def Let_def)
  then show ?thesis
    by (auto intro: early)
next
  case r1: (Inr u)
  note mk = assms(2) [unfolded r1]
  show ?thesis
  proof (cases "load_master_key L data_dir (Some password) w1")
    case (Inl e)
    with assms(1) mk have "r = Inl e" and "w' = w1"
      by (auto simp: store_encrypted_def Let_def)
    then show ?thesis
      by (auto intro: early)
  next
    case lm: (Inr mk')
    show ?thesis
    proof (cases "aesgcm_new L mk'")
      case (Some e)
      with assms(1) mk lm have "r = Inl e" and "files w' = files w1"
        by (auto simp: store_encrypted_def Let_def uuid4_def)
      then show ?thesis
        by (auto intro: early)
    next
      case None
      let ?w3 = "w1\<lparr>uuids := (\<lambda>i. uuids w (Suc i)),
                       entropy := (\<lambda>i. entropy w (i + AESGCM_IV_LEN))\<rparr>"
      have s3: "stat ?w3 = stat w1"
        by (simp add: stat_def fun_eq_iff)
      from mk have same: "uuids w1 = uuids w" "entropy w1 = entropy w"
        by (rule mkdir_parents_Inr)+
      show ?thesis
      proof (cases "read_bytes w1 input_path")
        case (Inl e)
        then have "read_bytes (w1\<lparr>uuids := a, entropy := b\<rparr>) input_path = Inl e" for a b
          by (simp add: read_bytes_def stat_def split: if_splits)
        with assms(1) mk lm None have "r = Inl e" and "files w' = files w1"
          by (auto simp: store_encrypted_def Let_def uuid4_def token_bytes_def)
        then show ?thesis
          by (auto intro: early)
      next
        case rd: (Inr data0)
        obtain r4 w4 where wr: "write_bytes (data_dir @ [STORAGE_DIRNAME, blob_name w input_path])
             (map (entropy w) [0..<AESGCM_IV_LEN]) ?w3 = (r4, w4)"
          by (cases "write_bytes (data_dir @ [STORAGE_DIRNAME, blob_name w input_path])
             (map (entropy w) [0..<AESGCM_IV_LEN]) ?w3")
        show ?thesis
        proof (cases r4)
          case (Inl e)
          with wr have "w4 = ?w3"
            by (auto dest: write_bytes_Inl)
          with store_encrypted_steps [OF mk lm None rd] assms(1) wr Inl
          have "r = Inl e" and "files w' = files w1"
            by (auto simp: Let_def)
          then show ?thesis
            by (auto intro: early)
        next
          case (Inr u4)
          with wr have "write_bytes (data_dir @ [STORAGE_DIRNAME, blob_name w input_path])
             (map (entropy w) [0..<AESGCM_IV_LEN]) ?w3 = (Inr u4, w4)"
            by simp
          with r1 lm None rd show ?thesis
            by (rule blob)
        qed
      qed
    qed
  qed
qed

lemma overwrite_from_small:
  assumes "0 < remaining" and "remaining \<le> 8192"
  shows "overwrite_from p pos remaining w =
           write_at p pos (map (entropy w) [0..<remaining])
             (w\<lparr>entropy := (\<lambda>i. entropy w (i + remaining))\<rparr>)"
  using assms
  by (simp add: overwrite_from.simps [of p pos remaining] token_bytes_def min_absorb2
      overwrite_from.simps [of p _ 0])

lemmas run_defs = fs_defs const_defs demo_defs mkdir_entries.simps encrypt_with_key_def
  decrypt_with_key_def derive_key_def str_bytes_def Let_def map_replicate_const
  sum_list_replicate char_of_def bit_0 o_def

lemma demo_store:
  "store_encrypted demo_library [''home'', ''my report.pdf''] ''pw'' [''home'', ''JuMan''] demo_vault
     = (Inr ''1b4e28ba-2fa1-41d2-883f-0016d3cca427__my_report.pdf.jmn'', demo_stored)"
  by (simp add: store_encrypted_def load_master_key_def demo_vault_def demo_stored_def run_defs
      secure_overwrite_and_delete_def overwrite_from_small write_at_def
      sanitize_filename_def isalnum_def in_range_def)

lemma big_store:
  "store_encrypted capped_library [''home'', ''big.iso''] ''pw'' [''home'', ''JuMan''] big_vault
     = (Inl OverflowError,
        big_vault\<lparr>files := files big_vault
          @ [([''home'', ''JuMan'', ''storage'', ''1b4e28ba-2fa1-41d2-883f-0016d3cca427__big.iso.jmn''], File (replicate 12 7))]\<rparr>)"
  by (simp add: store_encrypted_def load_master_key_def big_vault_def capped_library_def run_defs
      length_big_file
      sanitize_filename_def isalnum_def in_range_def)

text \<open>
  C5 fails on the code. The block left over from the streaming attempt opens the blob
  file and writes the nonce before anything is encrypted. With the size limit of
  \<open>AESGCM.encrypt\<close>, storing a file of \<open>2^31\<close> bytes raises \<open>OverflowError\<close>, and a
  blob that was not there before the call, holding the 12 bytes of the nonce, is in the
  storage directory after it.
\<close>

theorem store_encrypted_partial_blob:
  "fst (store_encrypted capped_library [''home'', ''big.iso''] ''pw'' [''home'', ''JuMan''] big_vault)
     = Inl OverflowError
   \<and> stat big_vault [''home'', ''JuMan'', ''storage'', ''1b4e28ba-2fa1-41d2-883f-0016d3cca427__big.iso.jmn''] = None
   \<and> stat (snd (store_encrypted capped_library [''home'', ''big.iso''] ''pw''
                   [''home'', ''JuMan''] big_vault))
          [''home'', ''JuMan'', ''storage'', ''1b4e28ba-2fa1-41d2-883f-0016d3cca427__big.iso.jmn'']
       = Some (File (replicate 12 7))"
  by (simp add: big_store) (simp add: big_vault_def stat_def)

text \<open>
  The outcomes of \<open>store_encrypted\<close> in general. It returns the blob name, and then
  the blob holds nonce, ciphertext and tag, and no path other than the blob and the input
  file has changed. Or it raises before the blob file is opened (creating the storage
  directory, loading the master key, constructing the cipher or opening the input
  failed), and then the files are as the creation of the storage directory left them: no
  blob is written. Or \<open>AESGCM.encrypt\<close> raises, and then the blob file is left behind
  holding the nonce alone: this is the only way a partial blob arises.
\<close>

theorem store_encrypted_outcomes:
  assumes "store_encrypted L input_path password data_dir w = (r, w')"
  shows "let out_path = data_dir @ [STORAGE_DIRNAME, blob_name w input_path];
             iv = map (entropy w) [0..<AESGCM_IV_LEN];
             w1 = snd (mkdir_parents (data_dir @ [STORAGE_DIRNAME]) w)
         in (\<exists>ct. r = Inr (blob_name w input_path)
                \<and> (\<forall>q. q \<noteq> input_path \<longrightarrow>
                      stat w' q = (if q = out_path then Some (File (iv @ ct)) else stat w1 q)))
          \<or> (\<exists>e. r = Inl e \<and> files w' = files w1)
          \<or> (\<exists>e mk data. r = Inl e \<and> aesgcm_encrypt L mk iv data = Inl e
                \<and> files w' = AList.update out_path (File iv) (files w1))"
proof -
  obtain r1 w1 where mk: "mkdir_parents (data_dir @ [STORAGE_DIRNAME]) w = (r1, w1)"
    by (cases "mkdir_parents (data_dir @ [STORAGE_DIRNAME]) w")
  from assms mk show ?thesis
  proof (cases rule: store_encrypted_cases)
    case (early e)
    with mk show ?thesis
      by (simp add: Let_def)
  next
    case (blob u mk' data0 u4 w4)
    define data where "data = (if input_path = data_dir @ [STORAGE_DIRNAME, blob_name w input_path]
                               then map (entropy w) [0..<AESGCM_IV_LEN] else data0)"
    note stage = store_encrypted_blob_stage
      [OF mk [unfolded blob(1)] blob(2-4) refl refl blob(5) assms data_def]
    show ?thesis
    proof (cases "aesgcm_encrypt L mk' (map (entropy w) [0..<AESGCM_IV_LEN]) data")
      case (Inl e)
      with stage have "r = Inl e" and "w' = w4"
        by simp_all
      moreover from write_bytes_Inr(2) [OF blob(5)]
      have "files w4 = AList.update (data_dir @ [STORAGE_DIRNAME, blob_name w input_path])
              (File (map (entropy w) [0..<AESGCM_IV_LEN])) (files w1)"
        by simp
      ultimately show ?thesis
        using Inl mk by (auto simp: Let_def)
    next
      case (Inr ct)
      with stage mk show ?thesis
        by (auto simp: Let_def)
    qed
  qed
qed

lemma big_mkdir:
  "mkdir_parents [''home'', ''JuMan'', STORAGE_DIRNAME] big_vault = (Inr (), big_vault)"
  by (rule mkdir_parents_existing) (simp add: big_vault_def stat_def STORAGE_DIRNAME_def)

theorem store_encrypted_outcomes_witness:
  "\<exists>e mk data.
     fst (store_encrypted capped_library [''home'', ''big.iso''] ''pw'' [''home'', ''JuMan''] big_vault)
       = Inl e
     \<and> aesgcm_encrypt capped_library mk (map (entropy big_vault) [0..<AESGCM_IV_LEN]) data = Inl e
     \<and> files (snd (store_encrypted capped_library [''home'', ''big.iso''] ''pw''
                      [''home'', ''JuMan''] big_vault))
         = AList.update ([''home'', ''JuMan''] @ [STORAGE_DIRNAME, blob_name big_vault [''home'', ''big.iso'']])
             (File (map (entropy big_vault) [0..<AESGCM_IV_LEN])) (files big_vault)"
proof -
  have "files (big_vault\<lparr>files := files big_vault
          @ [([''home'', ''JuMan'', ''storage'', ''1b4e28ba-2fa1-41d2-883f-0016d3cca427__big.iso.jmn''], File (replicate 12 7))]\<rparr>)
        \<noteq> files big_vault"
    by simp
  with store_encrypted_outcomes [OF big_store] show ?thesis
    by (simp add: Let_def big_mkdir big_store)
qed

text \<open>
  C8 as stated fails: the name is not the UUID, the separator and the sanitized
  original name alone. Storing \<open>my report.pdf\<close> with the UUID
  \<open>1b4e28ba-2fa1-41d2-883f-0016d3cca427\<close> returns
  \<open>1b4e28ba-2fa1-41d2-883f-0016d3cca427__my_report.pdf.jmn\<close>.
\<close>

theorem store_encrypted_name_counterexample:
  "fst (store_encrypted demo_library [''home'', ''my report.pdf''] ''pw'' [''home'', ''JuMan''] demo_vault)
     = Inr ''1b4e28ba-2fa1-41d2-883f-0016d3cca427__my_report.pdf.jmn''
   \<and> uuids demo_vault 0 @ ''__'' @ sanitize_filename ''my report.pdf'' = ''1b4e28ba-2fa1-41d2-883f-0016d3cca427__my_report.pdf''
   \<and> fst (store_encrypted demo_library [''home'', ''my report.pdf''] ''pw'' [''home'', ''JuMan''] demo_vault)
     \<noteq> Inr (uuids demo_vault 0 @ ''__'' @ sanitize_filename ''my report.pdf'')"
  by (simp add: demo_store) (simp add: demo_vault_def sanitize_filename_def isalnum_def in_range_def)

text \<open>
  C8, amended. When \<open>store_encrypted\<close> returns, the name it returns is the generated
  UUID, the separator \<open>__\<close>, the sanitized name of the input file (extension included)
  and the suffix \<open>.jmn\<close>; and, the input file not being that blob itself, the file of
  that name in the storage directory holds the nonce followed by the AES-GCM encryption
  of the input under the master key.
\<close>

theorem store_encrypted_blob_name:
  assumes "store_encrypted L input_path password data_dir w = (Inr name, w')"
  shows "name = uuids w 0 @ ''__'' @ sanitize_filename (path_name input_path) @ ''.jmn''
         \<and> (input_path \<noteq> data_dir @ [STORAGE_DIRNAME, name] \<longrightarrow>
              (\<exists>mk data ct.
                 load_master_key L data_dir (Some password) w = Inr mk
                 \<and> read_bytes w input_path = Inr data
                 \<and> aesgcm_encrypt L mk (map (entropy w) [0..<AESGCM_IV_LEN]) data = Inr ct
                 \<and> stat w' (data_dir @ [STORAGE_DIRNAME, name])
                     = Some (File (map (entropy w) [0..<AESGCM_IV_LEN] @ ct))))"
proof -
  obtain r1 w1 where mk: "mkdir_parents (data_dir @ [STORAGE_DIRNAME]) w = (r1, w1)"
    by (cases "mkdir_parents (data_dir @ [STORAGE_DIRNAME]) w")
  from assms mk show ?thesis
  proof (cases rule: store_encrypted_cases)
    case (early e)
    then show ?thesis
      by simp
  next
    case (blob u mk' data0 u4 w4)
    let ?iv = "map (entropy w) [0..<AESGCM_IV_LEN]"
    let ?out = "data_dir @ [STORAGE_DIRNAME, blob_name w input_path]"
    define data where "data = (if input_path = ?out then ?iv else data0)"
    note stage = store_encrypted_blob_stage
      [OF mk [unfolded blob(1)] blob(2-4) refl refl blob(5) assms data_def]
    from data_def have same: "input_path \<noteq> ?out \<longrightarrow> data = data0"
      by simp
    from stage obtain ct where enc: "aesgcm_encrypt L mk' ?iv data = Inr ct"
      and name: "name = blob_name w input_path"
      and st: "\<forall>q. q \<noteq> input_path \<longrightarrow>
                 stat w' q = (if q = ?out then Some (File (?iv @ ct)) else stat w1 q)"
      by (cases "aesgcm_encrypt L mk' ?iv data") auto
    from blob(4) have "stat w1 input_path = Some (File data0)"
      by (auto simp: read_bytes_def split: option.splits node.splits)
    with mk [unfolded blob(1)] have "stat w input_path = Some (File data0)"
      by (rule mkdir_parents_Inr(3))
    then have rd: "read_bytes w input_path = Inr data0"
      by (simp add: read_bytes_def)
    from blob(2) load_master_key_mkdir_storage [OF mk]
    have lm: "load_master_key L data_dir (Some password) w = Inr mk'"
      by simp
    from name enc same st rd lm show ?thesis
      by (auto simp: blob_name_def)
  qed
qed

theorem store_encrypted_blob_name_witness:
  "''1b4e28ba-2fa1-41d2-883f-0016d3cca427__my_report.pdf.jmn''
     = uuids demo_vault 0 @ ''__'' @ sanitize_filename (path_name [''home'', ''my report.pdf'']) @ ''.jmn''
   \<and> (\<exists>mk data ct.
         load_master_key demo_library [''home'', ''JuMan''] (Some ''pw'') demo_vault = Inr mk
         \<and> read_bytes demo_vault [''home'', ''my report.pdf''] = Inr data
         \<and> aesgcm_encrypt demo_library mk (map (entropy demo_vault) [0..<AESGCM_IV_LEN]) data = Inr ct
         \<and> stat demo_stored ([''home'', ''JuMan''] @ [STORAGE_DIRNAME, ''1b4e28ba-2fa1-41d2-883f-0016d3cca427__my_report.pdf.jmn''])
             = Some (File (map (entropy demo_vault) [0..<AESGCM_IV_LEN] @ ct)))"
  using store_encrypted_blob_name [OF demo_store]
  by simp

subsection \<open>Backup\<close>

lemma create_encrypted_backup_Inr:
  assumes "create_encrypted_backup L password data_dir out_name w = (Inr out_enc, w')"
  obtains zip_name w1 w2 w3 mk enc w4 w5 r where
    "stat w1 = stat w" and "residue w1 = residue w" and "entropy w1 = entropy w"
    and "write_bytes (data_dir @ [zip_name]) [] w1 = (Inr (), w2)"
    and "write_bytes (data_dir @ [zip_name]) (zip_deflated L (archive_members data_dir w2)) w2
           = (Inr (), w3)"
    and "load_master_key L data_dir (Some password) w3 = Inr mk"
    and "encrypt_with_key L (zip_deflated L (archive_members data_dir w2)) mk w3 = (Inr enc, w4)"
    and "out_enc = data_dir @ [zip_name @ BACKUP_SUFFIX]"
    and "write_bytes out_enc enc w4 = (Inr (), w5)"
    and "unlink (data_dir @ [zip_name]) w5 = (r, w')"
    and "files w1 = files w"
proof -
  obtain zip_name w1 where n: "(case out_name of
              None \<Rightarrow> (case uuid4_hex w of (h, w') \<Rightarrow> (''juman_backup_'' @ h @ ''.zip'', w'))
            | Some n \<Rightarrow> (n, w)) = (zip_name, w1)"
    by (cases "(case out_name of
              None \<Rightarrow> (case uuid4_hex w of (h, w') \<Rightarrow> (''juman_backup_'' @ h @ ''.zip'', w'))
            | Some n \<Rightarrow> (n, w))")
  then have w1: "stat w1 = stat w" "residue w1 = residue w" "entropy w1 = entropy w"
    "files w1 = files w"
    by (auto simp: uuid4_hex_def uuid4_def stat_def fun_eq_iff split: option.splits)
  obtain r2 w2 where a: "write_bytes (data_dir @ [zip_name]) [] w1 = (r2, w2)"
    by (cases "write_bytes (data_dir @ [zip_name]) [] w1")
  obtain r3 w3 where b: "write_bytes (data_dir @ [zip_name])
      (zip_deflated L (archive_members data_dir w2)) w2 = (r3, w3)"
    by (cases "write_bytes (data_dir @ [zip_name])
      (zip_deflated L (archive_members data_dir w2)) w2")
  from assms n a b have r2: "r2 = Inr ()" and r3: "r3 = Inr ()"
    by (auto simp: create_encrypted_backup_def Let_def split: sum.splits)
  from write_bytes_Inr(1) [OF b [unfolded r3]]
  have rd: "read_bytes w3 (data_dir @ [zip_name])
              = Inr (zip_deflated L (archive_members data_dir w2))"
    by (simp add: read_bytes_def)
  obtain r4 w4 where c: "encrypt_with_key L (zip_deflated L (archive_members data_dir w2))
      (case load_master_key L data_dir (Some password) w3 of Inr mk \<Rightarrow> mk) w3 = (r4, w4)"
    by (cases "encrypt_with_key L (zip_deflated L (archive_members data_dir w2))
      (case load_master_key L data_dir (Some password) w3 of Inr mk \<Rightarrow> mk) w3")
  from assms n a b r2 r3 rd c obtain mk enc w5 r where
      "load_master_key L data_dir (Some password) w3 = Inr mk"
      "r4 = Inr enc"
      "out_enc = data_dir @ [zip_name @ BACKUP_SUFFIX]"
      "write_bytes out_enc enc w4 = (Inr (), w5)"
      "unlink (data_dir @ [zip_name]) w5 = (r, w')"
    by (auto simp: create_encrypted_backup_def Let_def path_name_def
        split: sum.splits prod.splits)
  with w1 a b c r2 r3 show ?thesis
    by (auto intro: that)
qed

lemma write_bytes_residue:
  "write_bytes p b w = (r, w') \<Longrightarrow> residue w' = residue w \<and> entropy w' = entropy w"
  by (auto simp: write_bytes_def split: option.splits node.splits)

lemma encrypt_with_key_world:
  assumes "encrypt_with_key L x k w = (Inr enc, w')"
  shows "residue w' = residue w" and "entropy w' = (\<lambda>i. entropy w (i + AESGCM_IV_LEN))"
    and "\<exists>ct. aesgcm_encrypt L k (map (entropy w) [0..<AESGCM_IV_LEN]) x = Inr ct
              \<and> enc = map (entropy w) [0..<AESGCM_IV_LEN] @ ct"
  using assms
  by (auto simp: encrypt_with_key_def token_bytes_def split: option.splits sum.splits)

text \<open>
  C9 fails on the code. When \<open>create_encrypted_backup\<close> returns, the bytes of the
  unencrypted archive are what the unlinked file leaves on the medium, as they were
  written, and the only random bytes drawn during the call are the 12 of the nonce:
  the archive is unlinked without having been overwritten. (What
  \<open>secure_overwrite_and_delete\<close> leaves instead, where \<open>store_encrypted\<close> and
  \<open>delete_stored\<close> call it, is in the last subsection.)
\<close>

theorem backup_unlinks_plaintext:
  assumes "create_encrypted_backup L password data_dir out_name w = (Inr out_enc, w')"
  shows "\<exists>zip_name w2.
           stat w2 = (stat w)(data_dir @ [zip_name] \<mapsto> File [])
           \<and> residue w' = residue w @ [zip_deflated L (archive_members data_dir w2)]
           \<and> entropy w' = (\<lambda>i. entropy w (i + AESGCM_IV_LEN))
           \<and> stat w' (data_dir @ [zip_name]) = None"
  using assms
proof (cases rule: create_encrypted_backup_Inr)
  case (1 zip_name w1 w2 w3 mk enc w4 w5 r)
  let ?zip = "data_dir @ [zip_name]"
  let ?bytes = "zip_deflated L (archive_members data_dir w2)"
  from write_bytes_Inr(1) [OF 1(4)] 1(1) have s2: "stat w2 = (stat w)(?zip \<mapsto> File [])"
    by simp
  from write_bytes_Inr(1) [OF 1(5)] have s3: "stat w3 ?zip = Some (File ?bytes)"
    by simp
  with stat_encrypt_with_key [OF 1(7)] have "stat w4 ?zip = Some (File ?bytes)"
    by simp
  with write_bytes_Inr(1) [OF 1(9)] 1(8) have s5: "stat w5 ?zip = Some (File ?bytes)"
    by (simp add: BACKUP_SUFFIX_def)
  with 1(10) have w': "w' = w5\<lparr>files := AList.delete ?zip (files w5),
      residue := residue w5 @ [?bytes]\<rparr>"
    by (simp add: unlink_def)
  from write_bytes_residue [OF 1(4)] write_bytes_residue [OF 1(5)] write_bytes_residue [OF 1(9)]
    encrypt_with_key_world(1,2) [OF 1(7)] 1(2,3)
  have "residue w5 = residue w" and "entropy w5 = (\<lambda>i. entropy w (i + AESGCM_IV_LEN))"
    by simp_all
  moreover from s5 have "?zip \<noteq> []" by simp
  ultimately show ?thesis
    using s2 w' by (auto simp: stat_def delete_conv')
qed












lemma demo_backup:
  "fst (create_encrypted_backup demo_library ''pw'' [''home'', ''JuMan''] None demo_stored)
     = Inr [''home'', ''JuMan'', ''juman_backup_1b4e28ba2fa141d2883f0016d3cca427.zip.jumanbackup'']"
  by (simp add: create_encrypted_backup_def load_master_key_def demo_stored_def run_defs
      uuid4_hex_def archive_members_def archive_writes_def zip_entry_def)

lemma demo_backup_run:
  "create_encrypted_backup demo_library ''pw'' [''home'', ''JuMan''] None demo_stored
     = (Inr [''home'', ''JuMan'', ''juman_backup_1b4e28ba2fa141d2883f0016d3cca427.zip.jumanbackup''],
        snd (create_encrypted_backup demo_library ''pw'' [''home'', ''JuMan''] None demo_stored))"
  using demo_backup by (metis prod.collapse)

theorem backup_unlinks_plaintext_witness:
  "\<exists>zip_name w2.
     stat w2 = (stat demo_stored)([''home'', ''JuMan''] @ [zip_name] \<mapsto> File [])
     \<and> residue (snd (create_encrypted_backup demo_library ''pw'' [''home'', ''JuMan''] None
                       demo_stored))
         = residue demo_stored @ [zip_deflated demo_library (archive_members [''home'', ''JuMan''] w2)]
     \<and> entropy (snd (create_encrypted_backup demo_library ''pw'' [''home'', ''JuMan''] None
                       demo_stored))
         = (\<lambda>i. entropy demo_stored (i + AESGCM_IV_LEN))
     \<and> stat (snd (create_encrypted_backup demo_library ''pw'' [''home'', ''JuMan''] None
                    demo_stored)) ([''home'', ''JuMan''] @ [zip_name]) = None"
  by (rule backup_unlinks_plaintext [OF demo_backup_run])



subsection \<open>Secure erase\<close>

lemma upt_split_map:
  "m \<le> n \<Longrightarrow> map f [0..<m] @ map (\<lambda>i. f (i + m)) [0..<n - m] = map f [0..<n]"
proof -
  assume "m \<le> n"
  with upt_add_eq_append [of 0 m "n - m"] have "[0..<n] = [0..<m] @ [m..<n]"
    by simp
  moreover from \<open>m \<le> n\<close> have "map (\<lambda>i. i + m) [0..<n - m] = [m..<n]"
    by (simp add: map_add_upt)
  then have "map f (map (\<lambda>i. i + m) [0..<n - m]) = map f [m..<n]"
    by (rule arg_cong)
  then have "map (\<lambda>i. f (i + m)) [0..<n - m] = map f [m..<n]"
    by (simp add: o_def)
  ultimately show ?thesis by simp
qed

lemma overwrite_from_content:
  "stat w p = Some (File b) \<Longrightarrow> pos + remaining \<le> length b \<Longrightarrow>
     stat (overwrite_from p pos remaining w) p
       = Some (File (take pos b @ map (entropy w) [0..<remaining] @ drop (pos + remaining) b))
     \<and> entropy (overwrite_from p pos remaining w) = (\<lambda>i. entropy w (i + remaining))"
proof (induction p pos remaining w arbitrary: b rule: overwrite_from.induct)
  case (1 p pos remaining w)
  show ?case
  proof (cases "remaining > 0")
    case False
    with "1.prems" show ?thesis
      by (simp add: overwrite_from.simps [of p pos 0 w])
  next
    case True
    define m where "m = min 8192 remaining"
    define chunk where "chunk = map (entropy w) [0..<m]"
    define w1 where "w1 = w\<lparr>entropy := (\<lambda>i. entropy w (i + m))\<rparr>"
    define b1 where "b1 = take pos b @ chunk @ drop (pos + length chunk) b"
    have tb: "token_bytes (min 8192 remaining) w = (chunk, w1)"
      by (simp add: token_bytes_def chunk_def w1_def m_def)
    have len: "length chunk = m" and m: "m \<le> remaining" "0 < m"
      using True by (simp_all add: chunk_def m_def)
    from "1.prems"(1) have s1: "stat w1 p = Some (File b)"
      by (simp add: w1_def stat_def split: if_splits)
    then have sb1: "stat (write_at p pos chunk w1) p = Some (File b1)"
      by (auto simp: write_at_def stat_def b1_def update_conv' split: if_splits)
    have e1: "entropy (write_at p pos chunk w1) = (\<lambda>i. entropy w (i + m))"
      by (simp add: write_at_frame w1_def)
    from "1.prems"(2) len m have lb1: "length b1 = length b"
      by (simp add: b1_def)
    with "1.prems"(2) len m have bound: "pos + length chunk + (remaining - length chunk) \<le> length b1"
      by simp
    from m have rm: "remaining - m + m = remaining" "m + (remaining - m) = remaining"
      by simp_all
    from "1.IH" [OF True tb [symmetric] sb1 bound] e1 len
    have IH: "stat (overwrite_from p (pos + m) (remaining - m) (write_at p pos chunk w1)) p
                = Some (File (take (pos + m) b1 @ map (\<lambda>i. entropy w (i + m)) [0..<remaining - m]
                              @ drop (pos + remaining) b1))"
      and IHe: "entropy (overwrite_from p (pos + m) (remaining - m) (write_at p pos chunk w1))
                = (\<lambda>i. entropy w (i + remaining))"
      by (simp_all add: add.assoc rm)
    from "1.prems"(2) len m have t: "take (pos + m) b1 = take pos b @ chunk"
      by (simp add: b1_def)
    from "1.prems"(2) len m have d: "drop (pos + remaining) b1 = drop (pos + remaining) b"
      by (simp add: b1_def add.commute)
    have unfold: "overwrite_from p pos remaining w
        = overwrite_from p (pos + m) (remaining - m) (write_at p pos chunk w1)"
      using True tb len by (simp add: overwrite_from.simps [of p pos remaining w])
    from IH IHe t d unfold upt_split_map [OF m(1), of "entropy w"] show ?thesis
      by (simp add: chunk_def)
  qed
qed

text \<open>What the erase leaves on the medium: random bytes in place of the contents.\<close>

lemma secure_overwrite_and_delete_residue:
  assumes "stat w p = Some (File b)"
  shows "\<exists>w'. secure_overwrite_and_delete p 1 w = (Inr (), w')
           \<and> residue w' = residue w @ [map (entropy w) [0..<length b]]
           \<and> stat w' p = None"
proof -
  from assms have p: "p \<noteq> []" by (auto simp: stat_def split: if_splits)
  from overwrite_from_content [OF assms, of 0 "length b"]
  have c: "stat (overwrite_from p 0 (length b) w) p = Some (File (map (entropy w) [0..<length b]))"
    by simp
  moreover have "residue (overwrite_from p 0 (length b) w) = residue w"
    by (simp add: overwrite_from_frame)
  ultimately show ?thesis
    using assms p
    by (auto simp: secure_overwrite_and_delete_def path_exists_def unlink_def Let_def stat_def
        delete_conv')
qed

end
